theory Spec2Isabelle
  imports Main "HOL-Library.Sublist" "HOL-Library.AList"
begin

section \<open>JavaScript values\<close>

text \<open>
  The values that a map of responses holds and that a security handler returns:
  \<^verbatim>\<open>undefined\<close>, \<^verbatim>\<open>null\<close>, a boolean, an integer number, a string, or an object (of a type
  left open). \<open>truthy\<close> is JavaScript's \<^verbatim>\<open>Boolean(v)\<close> on them.
\<close>

datatype 'o jsvalue = Undefined | Null | Bool bool | Num int | Str string | Obj 'o

fun truthy :: "'o jsvalue \<Rightarrow> bool" where
  "truthy Undefined = False"
| "truthy Null = False"
| "truthy (Bool b) = b"
| "truthy (Num n) = (n \<noteq> 0)"
| "truthy (Str s) = (s \<noteq> [])"
| "truthy (Obj x) = True"

text \<open>\<^verbatim>\<open>String(n)\<close> for an integer \<open>n\<close>: its decimal digits, with a minus sign when negative.\<close>

fun digits :: "nat \<Rightarrow> string" where
  "digits n = (if n < 10 then [char_of (48 + n)] else digits (n div 10) @ [char_of (48 + n mod 10)])"

declare digits.simps [simp del]

definition String :: "int \<Rightarrow> string" where
  "String n = (if n < 0 then CHR ''-'' # digits (nat (- n)) else digits (nat n))"

section \<open>Strings\<close>

text \<open>
  A JavaScript string is modelled as the list of its code units, for strings whose code
  units are below 256 (ASCII and Latin-1). Among these code units the white space that
  \<^verbatim>\<open>String.prototype.trim\<close> removes is tab, line feed, vertical tab, form feed, carriage
  return, space and the no-break space U+00A0, and \<^verbatim>\<open>toLowerCase\<close> maps \<^verbatim>\<open>A\<close>..\<^verbatim>\<open>Z\<close> and
  the capital letters U+00C0..U+00DE (but not the multiplication sign U+00D7) to the
  code unit 32 above. Strings with code units from 256 on are not modelled.
\<close>

definition is_space :: "char \<Rightarrow> bool" where
  "is_space c \<longleftrightarrow> of_char c \<in> {9, 10, 11, 12, 13, 32, 160 :: nat}"

definition trim :: "string \<Rightarrow> string" where
  "trim s = rev (dropWhile is_space (rev (dropWhile is_space s)))"

definition lower_char :: "char \<Rightarrow> char" where
  "lower_char c =
     (let n = of_char c :: nat in
      if (65 \<le> n \<and> n \<le> 90) \<or> (192 \<le> n \<and> n \<le> 222 \<and> n \<noteq> 215)
      then char_of (n + 32) else c)"

definition toLowerCase :: "string \<Rightarrow> string" where
  "toLowerCase s = map lower_char s"

text \<open>\<^verbatim>\<open>s.split(c)[0]\<close>: the part of \<open>s\<close> before the first \<open>c\<close>.\<close>

definition split_0 :: "char \<Rightarrow> string \<Rightarrow> string" where
  "split_0 c s = takeWhile (\<lambda>x. x \<noteq> c) s"

text \<open>\<^verbatim>\<open>s.split(c)[1]\<close>: the part between the first and the second \<open>c\<close>; \<^verbatim>\<open>undefined\<close>
  (here \<open>None\<close>) when \<open>s\<close> has no \<open>c\<close>.\<close>

definition split_1 :: "char \<Rightarrow> string \<Rightarrow> string option" where
  "split_1 c s =
     (case dropWhile (\<lambda>x. x \<noteq> c) s of
        [] \<Rightarrow> None
      | _ # rest \<Rightarrow> Some (takeWhile (\<lambda>x. x \<noteq> c) rest))"

text \<open>\<^verbatim>\<open>s.replace(/\/+$/, '')\<close>: the trailing run of slashes is removed.\<close>

definition strip_trailing_slashes :: "string \<Rightarrow> string" where
  "strip_trailing_slashes s = rev (dropWhile (\<lambda>x. x = CHR ''/'') (rev s))"

text \<open>\<^verbatim>\<open>s.replace(/^\/*/, '/')\<close>: the leading run of slashes (possibly empty) becomes one
  slash.\<close>

definition single_leading_slash :: "string \<Rightarrow> string" where
  "single_leading_slash s = CHR ''/'' # dropWhile (\<lambda>x. x = CHR ''/'') s"

text \<open>The line terminators that \<^verbatim>\<open>.\<close> of a regular expression does not match.\<close>

definition is_line_terminator :: "char \<Rightarrow> bool" where
  "is_line_terminator c \<longleftrightarrow> of_char c \<in> {10, 13 :: nat}"

text \<open>
  \<^verbatim>\<open>s.replace(/\{.*?\}/g, r)\<close>. Scanning from the left, an opening brace that is followed,
  with no line terminator in between, by a closing brace is replaced together with
  everything up to the first such closing brace; an opening brace that is not closed
  stays. \<open>brace_end s\<close> is what follows the first closing brace of \<open>s\<close>.
\<close>

fun brace_end :: "string \<Rightarrow> string option" where
  "brace_end [] = None"
| "brace_end (c # s) =
     (if c = CHR ''}'' then Some s
      else if is_line_terminator c then None
      else brace_end s)"

lemma brace_end_shorter: "brace_end s = Some rest \<Longrightarrow> length rest < Suc (length s)"
  by (induction s) (auto split: if_splits)

function replace_braces :: "string \<Rightarrow> string \<Rightarrow> string" where
  "replace_braces r [] = []"
| "replace_braces r (c # s) =
     (if c = CHR ''{'' then
        (case brace_end s of
           Some rest \<Rightarrow> r @ replace_braces r rest
         | None \<Rightarrow> c # replace_braces r s)
      else c # replace_braces r s)"
  by pat_completeness auto
termination
  by (relation "measure (\<lambda>(r, s). length s)") (auto dest: brace_end_shorter)

section \<open>Requests and their normalisation (router.js)\<close>

text \<open>
  JSON values: what \<^verbatim>\<open>JSON.parse\<close> returns and what a request body may be (a string,
  a number, a boolean, \<^verbatim>\<open>null\<close>, an array or an object). Numbers are integers here.
\<close>

datatype json =
    JNull
  | JBool bool
  | JNum int
  | JStr string
  | JArr "json list"
  | JObj "(string \<times> json) list"

text \<open>\<^verbatim>\<open>typeof v === 'object'\<close>: true of objects, arrays and \<^verbatim>\<open>null\<close>.\<close>

fun is_object :: "json \<Rightarrow> bool" where
  "is_object JNull = True"
| "is_object (JArr xs) = True"
| "is_object (JObj kvs) = True"
| "is_object v = False"

text \<open>\<^verbatim>\<open>Boolean(v)\<close>.\<close>

fun json_truthy :: "json \<Rightarrow> bool" where
  "json_truthy JNull = False"
| "json_truthy (JBool b) = b"
| "json_truthy (JNum n) = (n \<noteq> 0)"
| "json_truthy (JStr s) = (s \<noteq> [])"
| "json_truthy v = True"

text \<open>
  The values of a parsed query: a string, an array or an object of such (as \<^verbatim>\<open>qs\<close>
  builds them), \<^verbatim>\<open>undefined\<close>, or the value that \<^verbatim>\<open>JSON.parse\<close> gave for a parameter
  with JSON content.
\<close>

datatype qvalue =
    QStr string
  | QArr "qvalue list"
  | QObj "(string \<times> qvalue) list"
  | QUndefined
  | QJson json

text \<open>
  A request as the router reads it. \<open>query\<close> is what the caller passed as
  \<^verbatim>\<open>req.query\<close>: an object (its entries), \<^verbatim>\<open>null\<close>, or anything that is not an object
  (a string, or nothing at all). \<open>body\<close> is \<^verbatim>\<open>req.body\<close>, \<open>None\<close> when \<^verbatim>\<open>undefined\<close>.
  A header holds a string or a list of strings.
\<close>

datatype query_input = QueryObject "(string \<times> qvalue) list" | QueryNull | QueryNotObject

datatype hvalue = HStr string | HArr "string list"

record request =
  "method" :: string
  path :: string
  headers :: "(string \<times> hvalue) list"
  query :: query_input
  body :: "json option"

text \<open>
  \<^verbatim>\<open>normalizeRequest\<close> copies the request and replaces two fields:
  \<^verbatim>\<open>path: (req.path || '').trim().split('?')[0].replace(/\/+$/, '').replace(/^\/*/, '/')\<close> and
  \<^verbatim>\<open>method: req.method.trim().toLowerCase()\<close>. The two expressions are named here.
\<close>

definition normalized_path :: "string \<Rightarrow> string" where
  "normalized_path p =
     single_leading_slash (strip_trailing_slashes (split_0 CHR ''?'' (trim p)))"

definition normalized_method :: "string \<Rightarrow> string" where
  "normalized_method m = toLowerCase (trim m)"

definition normalizeRequest :: "'x request_scheme \<Rightarrow> 'x request_scheme" where
  "normalizeRequest req =
     req\<lparr> path := normalized_path (path req), method := normalized_method (method req) \<rparr>"

section \<open>The document\<close>

text \<open>
  A parameter object, with the fields the router and the validator read. \<open>param_in\<close> is
  the field \<^verbatim>\<open>in\<close>; \<open>content_json\<close> says that \<^verbatim>\<open>content['application/json']\<close> is there;
  \<open>schema_type\<close> is \<^verbatim>\<open>schema.type\<close> when the parameter has a schema with a type.
\<close>

record parameter =
  name :: string
  param_in :: string
  required :: bool
  schema_type :: "string option"
  content_json :: bool
  style :: "string option"
  explode :: "bool option"

text \<open>A security requirement object maps scheme names to scopes.\<close>

type_synonym security_requirement = "(string \<times> string list) list"

text \<open>
  An operation object of the document. A field that may be missing is an option;
  \<open>requestBody_content\<close> is the list of media types declared under
  \<^verbatim>\<open>requestBody.content\<close>, in key order.
\<close>

record operation_object =
  operationId :: "string option"
  parameters :: "parameter list option"
  security :: "security_requirement list option"
  requestBody_content :: "string list option"

text \<open>
  A path item: its own keys with an operation object (the eight methods, and whatever
  other key holds an object), in key order, and its \<^verbatim>\<open>parameters\<close>.
\<close>

record path_item =
  item_operations :: "(string \<times> operation_object) list"
  item_parameters :: "parameter list option"

text \<open>The document: the entries of \<^verbatim>\<open>paths\<close> in key order, and the global \<^verbatim>\<open>security\<close>.\<close>

record document =
  paths :: "(string \<times> path_item) list"
  doc_security :: "security_requirement list option"

text \<open>The flattened Operation record that \<^verbatim>\<open>getOperations\<close> returns.\<close>

record operation =
  op_path :: string
  op_method :: string
  op_operationId :: "string option"
  op_parameters :: "parameter list"
  op_security :: "security_requirement list"
  op_requestBody_content :: "string list option"

text \<open>\<^verbatim>\<open>_.pick(object, keys)\<close>: the keys of the pick list that the object has, in the
  order of the pick list.\<close>

definition pick :: "(string \<times> 'a) list \<Rightarrow> string list \<Rightarrow> (string \<times> 'a) list" where
  "pick obj ks = List.map_filter (\<lambda>k. map_option (Pair k) (map_of obj k)) ks"

definition http_methods :: "string list" where
  "http_methods =
     [''get'', ''put'', ''post'', ''delete'', ''options'', ''head'', ''patch'', ''trace'']"

text \<open>\<^verbatim>\<open>a || b\<close> on a field that is an array when it is there: an array, even an empty
  one, is truthy.\<close>

definition or_else :: "'a option \<Rightarrow> 'a \<Rightarrow> 'a" where
  "or_else a b = (case a of Some x \<Rightarrow> x | None \<Rightarrow> b)"

section \<open>The router (router.js)\<close>

text \<open>
  What the code throws: \<^verbatim>\<open>Error(message)\<close>; the \<^verbatim>\<open>SyntaxError\<close> of the \<^verbatim>\<open>RegExp\<close>
  constructor on a pattern it cannot read (here with the pattern) and of \<^verbatim>\<open>JSON.parse\<close>
  on a text that is not JSON (with its message); the \<^verbatim>\<open>TypeError\<close> of iterating over
  \<^verbatim>\<open>undefined\<close>. A function that may throw returns \<open>exn + 'a\<close>, \<open>Inl\<close> the exception.
\<close>

datatype exn = Error string | SyntaxError string | TypeError string

text \<open>
  The regular expression engine is the JavaScript runtime's. The router is modelled
  relative to an engine \<open>eng\<close>: \<open>eng p s\<close> is \<open>None\<close> when \<^verbatim>\<open>new RegExp(p)\<close> throws,
  \<open>Some None\<close> when the pattern has no match in \<open>s\<close>, and \<open>Some (Some (i, n))\<close> when its
  first match starts at index \<open>i\<close> and is \<open>n\<close> characters long.
\<close>

type_synonym regexp_engine = "string \<Rightarrow> string \<Rightarrow> (nat \<times> nat) option option"

record router =
  router_definition :: document
  apiRoot :: string

text \<open>The constructor: \<^verbatim>\<open>this.apiRoot = opts.apiRoot || '/'\<close> (an empty string is falsy).\<close>

definition OpenAPIRouter :: "document \<Rightarrow> string option \<Rightarrow> router" where
  "OpenAPIRouter d root =
     \<lparr> router_definition = d,
       apiRoot = (case root of None \<Rightarrow> ''/'' | Some r \<Rightarrow> if r = [] then ''/'' else r) \<rparr>"

text \<open>
  \<^verbatim>\<open>getOperations()\<close>: for every entry of \<^verbatim>\<open>paths\<close> and every method the path item has,
  the operation object with \<^verbatim>\<open>path\<close>, \<^verbatim>\<open>method\<close>, the merged \<^verbatim>\<open>parameters\<close> and the
  effective \<^verbatim>\<open>security\<close>.
\<close>

definition flatten_operation ::
  "document \<Rightarrow> string \<Rightarrow> path_item \<Rightarrow> string \<times> operation_object \<Rightarrow> operation" where
  "flatten_operation d p pathBaseObject mo =
     (case mo of (m, op) \<Rightarrow>
        \<lparr> op_path = p,
          op_method = m,
          op_operationId = operationId op,
          op_parameters = or_else (parameters op) [] @ or_else (item_parameters pathBaseObject) [],
          op_security = or_else (security op) (or_else (doc_security d) []),
          op_requestBody_content = requestBody_content op \<rparr>)"

definition getOperations :: "router \<Rightarrow> operation list" where
  "getOperations r =
     concat (map (\<lambda>(p, pathBaseObject).
        map (flatten_operation (router_definition r) p pathBaseObject)
          (pick (item_operations pathBaseObject) http_methods)) (paths (router_definition r)))"

text \<open>\<^verbatim>\<open>path.replace(new RegExp(`^${this.apiRoot}/?`), '/')\<close>: the first match is replaced.\<close>

definition normalizePath :: "regexp_engine \<Rightarrow> router \<Rightarrow> string \<Rightarrow> exn + string" where
  "normalizePath eng r p =
     (let pat = ''^'' @ apiRoot r @ ''/?'' in
      case eng pat p of
        None \<Rightarrow> Inl (SyntaxError pat)
      | Some None \<Rightarrow> Inr p
      | Some (Some (i, n)) \<Rightarrow> Inr (take i p @ ''/'' @ drop (i + n) p))"

text \<open>\<^verbatim>\<open>`^${path.replace(/\{.*?\}/g, '[^/]+')}$`\<close>\<close>

definition pathPattern :: "string \<Rightarrow> string" where
  "pathPattern p = ''^'' @ replace_braces ''[^/]+'' p @ ''$''"

text \<open>\<^verbatim>\<open>Boolean(normalizedPath.match(new RegExp(pathPattern, 'g')))\<close>\<close>

definition template_test :: "regexp_engine \<Rightarrow> string \<Rightarrow> operation \<Rightarrow> exn + bool" where
  "template_test eng normalizedPath op =
     (case eng (pathPattern (op_path op)) normalizedPath of
        None \<Rightarrow> Inl (SyntaxError (pathPattern (op_path op)))
      | Some m \<Rightarrow> Inr (m \<noteq> None))"

text \<open>\<^verbatim>\<open>_.filter\<close> with a predicate that may throw: the first exception ends the scan.\<close>

fun filter_throwing :: "('a \<Rightarrow> exn + bool) \<Rightarrow> 'a list \<Rightarrow> exn + 'a list" where
  "filter_throwing f [] = Inr []"
| "filter_throwing f (x # xs) =
     (case f x of
        Inl e \<Rightarrow> Inl e
      | Inr b \<Rightarrow>
          (case filter_throwing f xs of
             Inl e \<Rightarrow> Inl e
           | Inr ys \<Rightarrow> Inr (if b then x # ys else ys)))"

text \<open>\<^verbatim>\<open>op.path.replace(RegExp(/\{.*?\}/g), '').length\<close>\<close>

definition specificity :: "operation \<Rightarrow> nat" where
  "specificity op = length (replace_braces [] (op_path op))"

text \<open>\<^verbatim>\<open>_.orderBy(ops, key, 'desc')\<close>: a stable sort, the greatest key first.\<close>

definition orderBy_desc :: "('a \<Rightarrow> nat) \<Rightarrow> 'a list \<Rightarrow> 'a list" where
  "orderBy_desc key xs = sort_key (\<lambda>x. - int (key x)) xs"

definition notFound :: exn where
  "notFound = Error ''404-notFound: no route matches request''"

definition methodNotAllowed :: exn where
  "methodNotAllowed = Error ''405-methodNotAllowed: this method is not registered for the route''"

definition matchOperation ::
  "regexp_engine \<Rightarrow> router \<Rightarrow> 'x request_scheme \<Rightarrow> bool \<Rightarrow> exn + operation option" where
  "matchOperation eng r req0 strict =
     (let req = normalizeRequest req0 in
      if \<not> prefix (apiRoot r) (path req) then
        (if strict then Inl notFound else Inr None)
      else
        (case normalizePath eng r (path req) of
           Inl e \<Rightarrow> Inl e
         | Inr normalizedPath \<Rightarrow>
            (let exactPathMatches =
                   filter (\<lambda>op. op_path op = normalizedPath) (getOperations r);
                 exactMatch = find (\<lambda>op. op_method op = method req) exactPathMatches
             in (case exactMatch of
                   Some op \<Rightarrow> Inr (Some op)
                 | None \<Rightarrow>
                    (case filter_throwing (template_test eng normalizedPath)
                            (getOperations r) of
                       Inl e \<Rightarrow> Inl e
                     | Inr templatePathMatches \<Rightarrow>
                        (if templatePathMatches = [] then
                           (if strict then Inl notFound else Inr None)
                         else
                           (case find (\<lambda>op. op_method op = method req)
                                   (orderBy_desc specificity templatePathMatches) of
                              None \<Rightarrow> (if strict then Inl methodNotAllowed else Inr None)
                            | Some op \<Rightarrow> Inr (Some op))))))))"

text \<open>\<^verbatim>\<open>getOperation(operationId)\<close>: \<^verbatim>\<open>_.find(this.getOperations(), { operationId })\<close>.\<close>

definition getOperation :: "router \<Rightarrow> string \<Rightarrow> operation option" where
  "getOperation r opId =
     find (\<lambda>op. op_operationId op = Some opId) (getOperations r)"

subsection \<open>An engine for the patterns of plain templates\<close>

text \<open>
  To run the router on concrete requests, \<open>simple_engine\<close> reads the patterns that
  templates and roots made of ordinary characters give: a leading \<^verbatim>\<open>^\<close>, then ordinary
  characters, \<^verbatim>\<open>.\<close>, the class \<^verbatim>\<open>[^/]+\<close> and an ordinary character followed by \<^verbatim>\<open>?\<close>,
  then an optional final \<^verbatim>\<open>$\<close>. It answers \<open>None\<close> on every other pattern, so it is the
  runtime's engine on the patterns it reads and on no others; it is used in the closed
  examples only, and the theorems hold for every engine.
\<close>

datatype rx_item = Lit char | AnyChar | NonSlashes | Opt char

definition rx_special :: "char \<Rightarrow> bool" where
  "rx_special c \<longleftrightarrow> c \<in> set ''^$.*+?()[]{}|'' \<or> c = CHR 0x5C"

fun rx_items :: "string \<Rightarrow> rx_item list option" where
  "rx_items [] = Some []"
| "rx_items (c # s) =
     (if c = CHR ''['' then
        (if take 4 s = ''^/]+'' then map_option (Cons NonSlashes) (rx_items (drop 4 s)) else None)
      else if c = CHR ''.'' then
        (if s \<noteq> [] \<and> hd s \<in> set ''*+?{'' then None
         else map_option (Cons AnyChar) (rx_items s))
      else if rx_special c then None
      else if s \<noteq> [] \<and> hd s = CHR ''?'' then
        (if tl s \<noteq> [] \<and> hd (tl s) \<in> set ''*+?{'' then None
         else map_option (Cons (Opt c)) (rx_items (tl s)))
      else if s \<noteq> [] \<and> hd s \<in> set ''*+{'' then None
      else map_option (Cons (Lit c)) (rx_items s))"

text \<open>
  The match of the items at the start of a string, as the backtracking engine finds it
  (a greedy item takes as much as it can first): the length of the match.
  \<open>to_end\<close> says that the pattern ends with \<^verbatim>\<open>$\<close>.
\<close>

fun rx_match :: "rx_item list \<Rightarrow> bool \<Rightarrow> string \<Rightarrow> nat option" where
  "rx_match [] to_end s = (if to_end \<and> s \<noteq> [] then None else Some 0)"
| "rx_match (Lit c # r) to_end s =
     (case s of
        [] \<Rightarrow> None
      | x # t \<Rightarrow> if x = c then map_option Suc (rx_match r to_end t) else None)"
| "rx_match (AnyChar # r) to_end s =
     (case s of
        [] \<Rightarrow> None
      | x # t \<Rightarrow> if is_line_terminator x then None else map_option Suc (rx_match r to_end t))"
| "rx_match (Opt c # r) to_end s =
     (case s of
        [] \<Rightarrow> rx_match r to_end s
      | x # t \<Rightarrow>
          if x = c then
            (case rx_match r to_end t of
               Some n \<Rightarrow> Some (Suc n)
             | None \<Rightarrow> rx_match r to_end s)
          else rx_match r to_end s)"
| "rx_match (NonSlashes # r) to_end s =
     (case s of
        [] \<Rightarrow> None
      | x # t \<Rightarrow>
          if x = CHR ''/'' then None
          else
            (case rx_match (NonSlashes # r) to_end t of
               Some n \<Rightarrow> Some (Suc n)
             | None \<Rightarrow> map_option Suc (rx_match r to_end t)))"

definition simple_engine :: regexp_engine where
  "simple_engine p s =
     (case p of
        [] \<Rightarrow> None
      | c # rest \<Rightarrow>
          (if c \<noteq> CHR ''^'' then None
           else
             (let to_end = (rest \<noteq> [] \<and> last rest = CHR ''$'');
                  inner = (if to_end then butlast rest else rest)
              in (case rx_items inner of
                    None \<Rightarrow> None
                  | Some items \<Rightarrow> Some (map_option (Pair 0) (rx_match items to_end s))))))"

section \<open>Parsing a request (router.js, parseRequest)\<close>

text \<open>
  The libraries that \<^verbatim>\<open>parseRequest\<close> and \<^verbatim>\<open>validateRequest\<close> call are not part of the
  repository; the code is modelled relative to them:
  \<^item> \<open>regexp\<close>, the engine of regular expressions (see above);
  \<^item> \<open>JSON_parse\<close>, \<^verbatim>\<open>JSON.parse\<close>: the value, or \<open>Inl\<close> the message of the \<^verbatim>\<open>SyntaxError\<close>;
  \<^item> \<open>qs_parse comma s\<close>, \<^verbatim>\<open>qs.parse(s)\<close> or, when \<open>comma\<close>, \<^verbatim>\<open>qs.parse(s, {comma: true})\<close>,
    \<open>s\<close> being \<open>None\<close> for \<^verbatim>\<open>undefined\<close>: the entries of the object it returns;
  \<^item> \<open>cookie_parse\<close>, \<^verbatim>\<open>cookie.parse\<close>;
  \<^item> \<open>bath_params template path\<close>, \<^verbatim>\<open>bath(template).params(path)\<close>: the path
    parameters, or \<open>None\<close> for \<^verbatim>\<open>null\<close>.
\<close>

record runtime =
  regexp :: regexp_engine
  JSON_parse :: "string \<Rightarrow> string + json"
  qs_parse :: "bool \<Rightarrow> string option \<Rightarrow> (string \<times> qvalue) list"
  cookie_parse :: "string \<Rightarrow> (string \<times> string) list"
  bath_params :: "string \<Rightarrow> string \<Rightarrow> (string \<times> string) list option"

text \<open>\<^verbatim>\<open>v.toString()\<close> and \<^verbatim>\<open>`${v}`\<close> for a body that is a string, a number or a boolean
  (the code applies them to no other body).\<close>

fun body_text :: "json \<Rightarrow> string" where
  "body_text (JStr s) = s"
| "body_text (JNum n) = String n"
| "body_text (JBool b) = (if b then ''true'' else ''false'')"
| "body_text v = ''[object Object]''"

text \<open>\<^verbatim>\<open>Boolean(v)\<close> and \<^verbatim>\<open>String(v)\<close> for a value of the query.\<close>

fun qvalue_truthy :: "qvalue \<Rightarrow> bool" where
  "qvalue_truthy (QStr s) = (s \<noteq> [])"
| "qvalue_truthy QUndefined = False"
| "qvalue_truthy (QJson j) = json_truthy j"
| "qvalue_truthy v = True"

text \<open>\<^verbatim>\<open>xs.join(sep)\<close>\<close>

fun join :: "string \<Rightarrow> string list \<Rightarrow> string" where
  "join sep [] = []"
| "join sep [x] = x"
| "join sep (x # y # ys) = x @ sep @ join sep (y # ys)"

fun qvalue_text :: "qvalue \<Rightarrow> string" where
  "qvalue_text (QStr s) = s"
| "qvalue_text (QArr xs) = join '','' (map qvalue_text xs)"
| "qvalue_text (QObj kvs) = ''[object Object]''"
| "qvalue_text QUndefined = ''undefined''"
| "qvalue_text (QJson j) = body_text j"

text \<open>\<^verbatim>\<open>s.replace(/pat/g, rep)\<close> for a pattern that is a literal text: every occurrence,
  from the left, without overlap.\<close>

function replace_all :: "string \<Rightarrow> string \<Rightarrow> string \<Rightarrow> string" where
  "replace_all pat rep [] = []"
| "replace_all pat rep (c # s) =
     (if pat \<noteq> [] \<and> prefix pat (c # s)
      then rep @ replace_all pat rep (drop (length pat) (c # s))
      else c # replace_all pat rep s)"
  by pat_completeness auto
termination
  by (relation "measure (\<lambda>(pat, rep, s). length s)") (auto simp: neq_Nil_conv)

text \<open>The query string with the delimiters of the parameter's style turned into commas.\<close>

definition commaQueryString :: "string option \<Rightarrow> string \<Rightarrow> string" where
  "commaQueryString sty queryString =
     (let s1 = (if sty = Some ''spaceDelimited''
                then replace_all ''%20'' '','' (replace_all '' '' '','' queryString)
                else queryString);
          s2 = (if sty = Some ''pipeDelimited''
                then replace_all ''%7C'' '','' (replace_all ''|'' '','' s1)
                else s1)
      in s2)"

text \<open>\<^verbatim>\<open>_.find(operation.parameters || [], { name, in })\<close>\<close>

definition find_parameter :: "operation \<Rightarrow> string \<Rightarrow> string \<Rightarrow> parameter option" where
  "find_parameter operation n i =
     find (\<lambda>q. name q = n \<and> param_in q = i) (op_parameters operation)"

text \<open>\<^verbatim>\<open>obj[key]\<close> on a parsed query: \<^verbatim>\<open>undefined\<close> when the key is missing.\<close>

definition qlookup :: "(string \<times> qvalue) list \<Rightarrow> string \<Rightarrow> qvalue" where
  "qlookup q k = (case map_of q k of Some v \<Rightarrow> v | None \<Rightarrow> QUndefined)"

text \<open>
  The body of the loop \<^verbatim>\<open>for (const queryParam in query)\<close>: the entry of a query
  parameter is parsed as JSON when the parameter has JSON content, and taken from the
  comma-parsed query string when the parameter has \<^verbatim>\<open>explode === false\<close> and the path
  carries a query string.
\<close>

definition coerce_query_param ::
  "runtime \<Rightarrow> operation \<Rightarrow> string option \<Rightarrow> (string \<times> qvalue) list \<Rightarrow> string \<Rightarrow>
   exn + (string \<times> qvalue) list" where
  "coerce_query_param rt operation queryString q queryParam =
     (if \<not> qvalue_truthy (qlookup q queryParam) then Inr q
      else
        (case find_parameter operation queryParam ''query'' of
           None \<Rightarrow> Inr q
         | Some p \<Rightarrow>
            (if content_json p then
               (case JSON_parse rt (qvalue_text (qlookup q queryParam)) of
                  Inl msg \<Rightarrow> Inl (SyntaxError msg)
                | Inr j \<Rightarrow> Inr (AList.update queryParam (QJson j) q))
             else
               (case queryString of
                  None \<Rightarrow> Inr q
                | Some qstr \<Rightarrow>
                   (if explode p = Some False \<and> qstr \<noteq> [] then
                      Inr (AList.update queryParam
                            (qlookup (qs_parse rt True (Some (commaQueryString (style p) qstr)))
                               queryParam) q)
                    else Inr q)))))"

text \<open>A loop whose body may throw.\<close>

fun fold_throwing :: "('s \<Rightarrow> 'a \<Rightarrow> exn + 's) \<Rightarrow> 's \<Rightarrow> 'a list \<Rightarrow> exn + 's" where
  "fold_throwing f s [] = Inr s"
| "fold_throwing f s (x # xs) =
     (case f s x of Inl e \<Rightarrow> Inl e | Inr s' \<Rightarrow> fold_throwing f s' xs)"

text \<open>\<^verbatim>\<open>_.mapKeys(req.headers, (val, header) => header.toLowerCase())\<close>\<close>

definition lowercase_keys :: "(string \<times> 'v) list \<Rightarrow> (string \<times> 'v) list" where
  "lowercase_keys hs = foldl (\<lambda>acc (k, v). AList.update (toLowerCase k) v acc) [] hs"

text \<open>\<^verbatim>\<open>_.flatten([cookieHeader]).join('; ')\<close>\<close>

definition cookie_text :: "hvalue option \<Rightarrow> string" where
  "cookie_text h =
     (case h of None \<Rightarrow> [] | Some (HStr s) \<Rightarrow> s | Some (HArr xs) \<Rightarrow> join ''; '' xs)"

text \<open>The ParsedRequest: the normalised request with the parsed parts. \<open>pr_query\<close> is
  \<open>None\<close> when the query is \<^verbatim>\<open>null\<close>; \<open>requestBody\<close> is \<open>None\<close> when \<^verbatim>\<open>undefined\<close>.\<close>

record parsed_request = request +
  params :: "(string \<times> string) list"
  pr_headers :: "(string \<times> hvalue) list"
  pr_query :: "(string \<times> qvalue) list option"
  cookies :: "(string \<times> string) list"
  requestBody :: "json option"

text \<open>The query before the parameter styles are applied:
  \<^verbatim>\<open>typeof req.query === 'object' ? _.cloneDeep(req.query) : parse(queryString)\<close>.\<close>

definition initial_query :: "runtime \<Rightarrow> request \<Rightarrow> (string \<times> qvalue) list option" where
  "initial_query rt req =
     (case query req of
        QueryObject es \<Rightarrow> Some es
      | QueryNull \<Rightarrow> None
      | QueryNotObject \<Rightarrow> Some (qs_parse rt False (split_1 CHR ''?'' (path req))))"

definition parseRequest ::
  "runtime \<Rightarrow> router \<Rightarrow> request \<Rightarrow> operation option \<Rightarrow> exn + parsed_request" where
  "parseRequest rt r req operation =
     (let requestBody =
            (case body req of
               None \<Rightarrow> None
             | Some b \<Rightarrow>
                (if json_truthy b \<and> \<not> is_object b then
                   (case JSON_parse rt (body_text b) of Inr j \<Rightarrow> Some j | Inl msg \<Rightarrow> Some b)
                 else Some b));
          hs = lowercase_keys (headers req);
          cookieHeader = map_of hs ''cookie'';
          cs = cookie_parse rt (cookie_text cookieHeader);
          queryString = split_1 CHR ''?'' (path req);
          q0 = initial_query rt req;
          nreq = normalizeRequest req;
          result = (\<lambda>ps q. request.extend nreq
                      (parsed_request.fields ps hs q cs requestBody))
      in case operation of
           None \<Rightarrow> Inr (result [] q0)
         | Some opn \<Rightarrow>
            (case normalizePath (regexp rt) r (path nreq) of
               Inl e \<Rightarrow> Inl e
             | Inr normalizedPath \<Rightarrow>
                (let ps = (case bath_params rt (op_path opn) normalizedPath of
                             None \<Rightarrow> []
                           | Some found \<Rightarrow> found)
                 in case q0 of
                      None \<Rightarrow> Inr (result ps None)
                    | Some q \<Rightarrow>
                       (case fold_throwing (coerce_query_param rt opn queryString) q (map fst q) of
                          Inl e \<Rightarrow> Inl e
                        | Inr q' \<Rightarrow> Inr (result ps (Some q'))))))"

section \<open>Validating a request (validation.js, validateRequest)\<close>

text \<open>A validation error, with the fields the code sets (\<^verbatim>\<open>params\<close> is left out).\<close>

record validation_error =
  keyword :: string
  dataPath :: string
  schemaPath :: string
  message :: string

record validation_result =
  valid :: bool
  errors :: "validation_error list"

text \<open>
  The object handed to the compiled validators: the buckets \<^verbatim>\<open>path\<close>, \<^verbatim>\<open>query\<close>,
  \<^verbatim>\<open>header\<close> and \<^verbatim>\<open>cookie\<close> (a bucket that is \<^verbatim>\<open>null\<close> is omitted) and, when included,
  \<^verbatim>\<open>requestBody\<close>. \<open>v_requestBody\<close> is \<open>None\<close> when the key is not set and \<open>Some None\<close>
  when it is set to \<^verbatim>\<open>undefined\<close>.
\<close>

record validated_parameters =
  v_path :: "(string \<times> string) list option"
  v_query :: "(string \<times> qvalue) list option"
  v_header :: "(string \<times> hvalue) list option"
  v_cookie :: "(string \<times> string) list option"
  v_requestBody :: "json option option"

text \<open>
  A compiled validator (the schema engine is not part of the repository): applied to
  the parameters it leaves its errors, \<open>None\<close> for \<^verbatim>\<open>validate.errors === null\<close>.
  The validator object holds the router and the validators compiled per operationId.
\<close>

type_synonym validate_function = "validated_parameters \<Rightarrow> validation_error list option"

record validator =
  v_router :: router
  requestValidators :: "string \<rightharpoonup> validate_function list"

text \<open>The second argument of \<^verbatim>\<open>validateRequest\<close>: nothing, an operationId, or an
  Operation.\<close>

datatype operation_argument = NoOperation | OperationId string | OperationObject operation

text \<open>\<^verbatim>\<open>typeof value === 'string'\<close> for a value of the query: a string of the query
  string, or a string that \<^verbatim>\<open>JSON.parse\<close> gave for a parameter with JSON content.\<close>

fun is_string_value :: "qvalue \<Rightarrow> bool" where
  "is_string_value (QStr s) = True"
| "is_string_value (QJson (JStr s)) = True"
| "is_string_value v = False"

text \<open>The loop that turns a singular query value into a one-element array when the
  parameter's schema is of type array.\<close>

definition singular_to_array ::
  "operation \<Rightarrow> (string \<times> qvalue) list \<Rightarrow> string \<times> qvalue \<Rightarrow> (string \<times> qvalue) list" where
  "singular_to_array operation q entry =
     (case entry of
        (nm, v) \<Rightarrow>
          (if is_string_value v then
             (case find_parameter operation nm ''query'' of
                None \<Rightarrow> q
              | Some p \<Rightarrow>
                  if schema_type p = Some ''array'' then AList.update nm (QArr [v]) q else q)
           else q))"

text \<open>The synthetic error pushed when the body is not JSON.\<close>

definition parse_error :: "string \<Rightarrow> validation_error" where
  "parse_error msg =
     \<lparr>keyword = ''parse'', dataPath = [], schemaPath = ''#/requestBody'', message = msg\<rparr>"

text \<open>The check of the raw body: the errors it pushes.\<close>

definition body_check :: "runtime \<Rightarrow> request \<Rightarrow> operation \<Rightarrow> validation_error list" where
  "body_check rt req operation =
     (case body req of
        None \<Rightarrow> []
      | Some b \<Rightarrow>
         (if is_object b then []
          else
            (let payloadFormats = or_else (op_requestBody_content operation) [] in
             if length payloadFormats = 1 \<and> hd payloadFormats = ''application/json'' then
               (case JSON_parse rt (body_text b) of
                  Inr j \<Rightarrow> []
                | Inl msg \<Rightarrow> [parse_error msg])
             else [])))"

text \<open>
  The operation that \<^verbatim>\<open>validateRequest\<close> works on: with no operation given (or an empty
  string, which is falsy) the router matches the request in non-strict mode; an
  operationId is looked up; an Operation is taken as it is.
\<close>

definition resolve_operation ::
  "runtime \<Rightarrow> validator \<Rightarrow> request \<Rightarrow> operation_argument \<Rightarrow> exn + operation option" where
  "resolve_operation rt v req arg =
     (case arg of
        NoOperation \<Rightarrow> matchOperation (regexp rt) (v_router v) req False
      | OperationId i \<Rightarrow>
          (if i = [] then matchOperation (regexp rt) (v_router v) req False
           else Inr (getOperation (v_router v) i))
      | OperationObject opn \<Rightarrow> Inr (Some opn))"

definition validateRequest ::
  "runtime \<Rightarrow> validator \<Rightarrow> request \<Rightarrow> operation_argument \<Rightarrow> exn + validation_result" where
  "validateRequest rt v req arg =
     (case resolve_operation rt v req arg of
        Inl e \<Rightarrow> Inl e
      | Inr None \<Rightarrow> Inl (Error ''Unknown operation'')
      | Inr (Some operation) \<Rightarrow>
         (case op_operationId operation of
            None \<Rightarrow> Inl (Error ''Unknown operation'')
          | Some opId \<Rightarrow>
             (if opId = [] then Inl (Error ''Unknown operation'')
              else
                (case parseRequest rt (v_router v) req (Some operation) of
                   Inl e \<Rightarrow> Inl e
                 | Inr pr \<Rightarrow>
                    (let q = map_option (\<lambda>q0. foldl (singular_to_array operation) q0 q0) (pr_query pr);
                         given =
                           \<lparr>v_path = Some (params pr), v_query = q,
                            v_header = Some (pr_headers pr), v_cookie = Some (cookies pr),
                            v_requestBody =
                              (if (case requestBody pr of Some j \<Rightarrow> is_object j | None \<Rightarrow> False) \<or>
                                  map_of (pr_headers pr) ''content-type'' =
                                    Some (HStr ''application/json'')
                               then Some (requestBody pr) else None)\<rparr>;
                         errs = body_check rt req operation
                     in case requestValidators v opId of
                          None \<Rightarrow> Inl (TypeError ''validators is not iterable'')
                        | Some validators \<Rightarrow>
                           (let all_errors =
                                  errs @ concat (map (\<lambda>validate.
                                    case validate given of None \<Rightarrow> [] | Some es \<Rightarrow> es) validators)
                            in Inr \<lparr>valid = (all_errors = []), errors = all_errors\<rparr>))))))"

section \<open>The cycle breaker (validation.js)\<close>

text \<open>
  The input of \<^verbatim>\<open>decycle\<close> is a graph of objects. An object is known by its identity: the
  heap is the list of the plain objects and arrays, and the address of one is its
  position in the list. A value is a primitive (\<^verbatim>\<open>typeof value !== 'object'\<close>, or
  \<^verbatim>\<open>null\<close>), a reference to a plain object or an array of the heap, or a reference to one
  of the built-in objects that \<^verbatim>\<open>derez\<close> does not enter (an instance of \<^verbatim>\<open>Boolean\<close>,
  \<^verbatim>\<open>Date\<close>, \<^verbatim>\<open>Number\<close>, \<^verbatim>\<open>RegExp\<close> or \<^verbatim>\<open>String\<close>). An array is the list of its elements
  (no holes); a plain object is the list of its own enumerable properties in the order
  of \<^verbatim>\<open>Object.keys\<close>.
\<close>

datatype objref = Plain nat | Builtin nat

type_synonym val = "objref jsvalue"

datatype node = Array "val list" | Record "(string \<times> val) list"

type_synonym heap = "node list"


text \<open>A step from a value to one of its parts, and the text that \<^verbatim>\<open>derez\<close> appends to
  the path for it: \<^verbatim>\<open>'/' + i\<close> for the element \<open>i\<close> of an array, \<^verbatim>\<open>'/' + name\<close> for a
  property.\<close>

datatype step = Index nat | Name string


text \<open>The parts of an object with the steps to them, in the order in which
  \<^verbatim>\<open>forEach\<close> visits them.\<close>

fun entries :: "node \<Rightarrow> (step \<times> val) list" where
  "entries (Array es) = zip (map Index [0..<length es]) es"
| "entries (Record ps) = map (\<lambda>(nm, x). (Name nm, x)) ps"








text \<open>Following steps from a value through the heap, and from a result through the new
  objects.\<close>

fun part :: "heap \<Rightarrow> val \<Rightarrow> step \<Rightarrow> val option" where
  "part h (Obj (Plain a)) k = (if a < length h then map_of (entries (h ! a)) k else None)"
| "part h v k = None"








section \<open>The status matcher (utils.js)\<close>


section \<open>The security step of the dispatcher (backend.js)\<close>

text \<open>
  Modelled from the spec: step 4 of \<^verbatim>\<open>handleRequest\<close> in \<^verbatim>\<open>backend.js\<close>, which is not among
  the sources (only \<^verbatim>\<open>backend.d.ts\<close> and \<^verbatim>\<open>backend.test.js\<close> are). Section 4.7, step 4: for
  each scheme name in every security requirement object, invoke the registered security
  handler (if any) with the context and store its return value under
  \<^verbatim>\<open>context.security[name]\<close>; a missing handler stores \<^verbatim>\<open>undefined\<close>. Invariant I7 and the
  glossary (a security requirement is a list of alternative requirement objects, each of
  which authorizes iff all its schemes succeed; OR-of-ANDs): \<^verbatim>\<open>context.security.authorized\<close>
  is true iff some requirement object has all of its schemes return a truthy value; an
  empty \<^verbatim>\<open>security\<close> gives \<^verbatim>\<open>authorized = true\<close>. A handler is a function of the context.
\<close>

record 'o security_context =
  authorized :: bool
  results :: "(string \<times> 'o jsvalue) list"

text \<open>The scheme names of all requirement objects, in order.\<close>

definition securitySchemes :: "security_requirement list \<Rightarrow> string list" where
  "securitySchemes reqs = concat (map (map fst) reqs)"

text \<open>What the handler registered for a scheme returns; \<^verbatim>\<open>undefined\<close> when none is
  registered.\<close>

definition handler_result :: "(string \<rightharpoonup> ('c \<Rightarrow> 'o jsvalue)) \<Rightarrow> 'c \<Rightarrow> string \<Rightarrow> 'o jsvalue" where
  "handler_result handlers ctx nm = (case handlers nm of None \<Rightarrow> Undefined | Some h \<Rightarrow> h ctx)"

text \<open>Running the handler of one scheme and storing what it returns under the name.\<close>

definition run_handler ::
  "(string \<rightharpoonup> ('c \<Rightarrow> 'o jsvalue)) \<Rightarrow> 'c \<Rightarrow> (string \<times> 'o jsvalue) list \<Rightarrow> string \<Rightarrow>
   (string \<times> 'o jsvalue) list" where
  "run_handler handlers ctx res nm = AList.update nm (handler_result handlers ctx nm) res"

text \<open>A requirement object is satisfied when the stored result of each of its schemes is
  truthy.\<close>

definition requirement_satisfied :: "(string \<times> 'o jsvalue) list \<Rightarrow> security_requirement \<Rightarrow> bool" where
  "requirement_satisfied res req =
     list_all (\<lambda>nm. case map_of res nm of Some v \<Rightarrow> truthy v | None \<Rightarrow> False) (map fst req)"

definition runSecurity ::
  "(string \<rightharpoonup> ('c \<Rightarrow> 'o jsvalue)) \<Rightarrow> 'c \<Rightarrow> security_requirement list \<Rightarrow> 'o security_context" where
  "runSecurity handlers ctx reqs =
     (let res = foldl (run_handler handlers ctx) [] (securitySchemes reqs);
          requirementsSatisfied = map (requirement_satisfied res) reqs in
      \<lparr> authorized = (reqs = [] \<or> list_ex (\<lambda>b. b) requirementsSatisfied), results = res \<rparr>)"

section \<open>Example inputs\<close>

text \<open>A request with a method and a path, and nothing else.\<close>

definition plain_request :: "string \<Rightarrow> string \<Rightarrow> request" where
  "plain_request m p =
     \<lparr>method = m, path = p, headers = [], query = QueryNotObject, body = None\<rparr>"

text \<open>The parameter \<^verbatim>\<open>{name: 'id', in: 'path', required: true, schema: {type: t}}\<close>.\<close>

definition id_param :: "string \<Rightarrow> parameter" where
  "id_param t =
     \<lparr>name = ''id'', param_in = ''path'', required = True, schema_type = Some t,
      content_json = False, style = None, explode = None\<rparr>"

text \<open>A document whose one path declares \<^verbatim>\<open>id\<close> at the path level (a string) and again
  at the operation level (an integer).\<close>

definition dup_doc :: document where
  "dup_doc =
     \<lparr>paths = [(''/pets/{id}'',
        \<lparr>item_operations = [(''get'',
           \<lparr>operationId = Some ''getPetById'', parameters = Some [id_param ''integer''],
            security = None, requestBody_content = None\<rparr>)],
         item_parameters = Some [id_param ''string'']\<rparr>)],
      doc_security = None\<rparr>"

definition dup_router :: router where
  "dup_router = OpenAPIRouter dup_doc None"

text \<open>The test of \<^verbatim>\<open>_.find(parameters, { name, in })\<close>.\<close>

definition same_key :: "string \<Rightarrow> string \<Rightarrow> parameter \<Rightarrow> bool" where
  "same_key n i q \<longleftrightarrow> name q = n \<and> param_in q = i"

text \<open>An operation object with an \<^verbatim>\<open>operationId\<close> and nothing else.\<close>

definition named_operation :: "string \<Rightarrow> operation_object" where
  "named_operation i =
     \<lparr>operationId = Some i, parameters = None, security = None, requestBody_content = None\<rparr>"

text \<open>
  A pet store in the manner of the document of \<^verbatim>\<open>backend.test.js\<close>, with a \<^verbatim>\<open>post\<close> at
  \<^verbatim>\<open>/pets/{id}\<close>. The path item of \<^verbatim>\<open>/pets\<close> lists \<^verbatim>\<open>post\<close> before \<^verbatim>\<open>get\<close>.
\<close>

definition pets_doc :: document where
  "pets_doc =
     \<lparr>paths =
        [(''/pets'',
            \<lparr>item_operations =
               [(''post'', named_operation ''createPet''), (''get'', named_operation ''getPets'')],
             item_parameters = None\<rparr>),
         (''/pets/{id}'',
            \<lparr>item_operations =
               [(''get'', named_operation ''getPetById''),
                (''post'', named_operation ''updatePetById''),
                (''delete'', named_operation ''deletePetById'')],
             item_parameters = Some [id_param ''integer'']\<rparr>),
         (''/pets/{id}/owner'',
            \<lparr>item_operations = [(''get'', named_operation ''getOwnerByPetId'')],
             item_parameters = Some [id_param ''integer'']\<rparr>),
         (''/pets/meta'',
            \<lparr>item_operations = [(''get'', named_operation ''getPetsMeta'')],
             item_parameters = None\<rparr>)],
      doc_security = Some [[(''basicAuth'', [])]]\<rparr>"

text \<open>The pet store served at the default root, and under \<^verbatim>\<open>/api\<close>.\<close>

definition pets_router :: router where
  "pets_router = OpenAPIRouter pets_doc None"

definition api_router :: router where
  "api_router = OpenAPIRouter pets_doc (Some ''/api'')"

text \<open>A document one of whose paths is not a regular expression once it stands in a
  pattern: \<^verbatim>\<open>new RegExp('^/lang/c++$')\<close> throws (nothing to repeat).\<close>

definition lang_doc :: document where
  "lang_doc =
     \<lparr>paths =
        [(''/lang'',
            \<lparr>item_operations = [(''get'', named_operation ''getLanguages'')],
             item_parameters = None\<rparr>),
         (''/lang/c++'',
            \<lparr>item_operations = [(''get'', named_operation ''getCxx'')],
             item_parameters = None\<rparr>)],
      doc_security = None\<rparr>"

definition lang_router :: router where
  "lang_router = OpenAPIRouter lang_doc None"

text \<open>
  A document in which several templates match \<^verbatim>\<open>/pets/meta\<close>: \<^verbatim>\<open>/{kind}/{id}\<close> (two
  characters outside its placeholders), \<^verbatim>\<open>/pets/{id}\<close> and \<^verbatim>\<open>/{kind}/meta\<close> (six each), and
  \<^verbatim>\<open>/pets/meta\<close> itself, which declares \<^verbatim>\<open>post\<close> only.
\<close>

definition shapes_doc :: document where
  "shapes_doc =
     \<lparr>paths =
        [(''/{kind}/{id}'',
            \<lparr>item_operations = [(''get'', named_operation ''getThing'')],
             item_parameters = None\<rparr>),
         (''/pets/{id}'',
            \<lparr>item_operations = [(''get'', named_operation ''getPetById'')],
             item_parameters = None\<rparr>),
         (''/{kind}/meta'',
            \<lparr>item_operations = [(''get'', named_operation ''getKindMeta'')],
             item_parameters = None\<rparr>),
         (''/pets/meta'',
            \<lparr>item_operations = [(''post'', named_operation ''createPetsMeta'')],
             item_parameters = None\<rparr>)],
      doc_security = None\<rparr>"

definition shapes_router :: router where
  "shapes_router = OpenAPIRouter shapes_doc None"

text \<open>The \<^verbatim>\<open>operationId\<close> of what \<^verbatim>\<open>matchOperation\<close> returns.\<close>

definition matched_id :: "exn + operation option \<Rightarrow> exn + string option option" where
  "matched_id res = map_sum id (map_option op_operationId) res"









text \<open>
  The security of \<^verbatim>\<open>backend.test.js\<close> (one requirement object, \<^verbatim>\<open>basicAuth\<close>), a list of two
  alternative requirement objects, and one requirement object with two schemes. The
  handlers return \<^verbatim>\<open>1\<close>, \<^verbatim>\<open>null\<close>, \<^verbatim>\<open>false\<close> and \<^verbatim>\<open>'dummyResponse'\<close>.
\<close>

definition basic_security :: "security_requirement list" where
  "basic_security = [[(''basicAuth'', [])]]"

definition two_alternatives :: "security_requirement list" where
  "two_alternatives = [[(''apiKey'', [])], [(''basicAuth'', [])]]"

definition both_required :: "security_requirement list" where
  "both_required = [[(''basicAuth'', []), (''apiKey'', [])]]"

definition accepting :: "string \<rightharpoonup> (unit \<Rightarrow> unit jsvalue)" where
  "accepting = map_of [(''basicAuth'', \<lambda>c. Num 1)]"

definition rejecting :: "string \<rightharpoonup> (unit \<Rightarrow> unit jsvalue)" where
  "rejecting = map_of [(''basicAuth'', \<lambda>c. Null)]"

definition refusing :: "string \<rightharpoonup> (unit \<Rightarrow> unit jsvalue)" where
  "refusing = map_of [(''basicAuth'', \<lambda>c. Bool False)]"

definition dummy_handler :: "string \<rightharpoonup> (unit \<Rightarrow> unit jsvalue)" where
  "dummy_handler = map_of [(''basicAuth'', \<lambda>c. Str ''dummyResponse'')]"

definition basic_only :: "string \<rightharpoonup> (unit \<Rightarrow> unit jsvalue)" where
  "basic_only = map_of [(''basicAuth'', \<lambda>c. Num 1), (''apiKey'', \<lambda>c. Null)]"

text \<open>
  Stand-ins for the libraries, to run the code on the examples. \<open>simple_qs\<close> reads a
  flat query string (\<^verbatim>\<open>k=v&k=v\<close>, keys different, nothing to decode) and, with the
  comma option, splits a value at its commas. \<open>atoms_parse\<close> reads the JSON texts
  \<^verbatim>\<open>null\<close>, \<^verbatim>\<open>true\<close>, \<^verbatim>\<open>false\<close> and the unsigned integers and rejects every other text. They
  are used on inputs where they agree with the libraries; the theorems hold for every
  runtime.
\<close>

fun split_on :: "char \<Rightarrow> string \<Rightarrow> string list" where
  "split_on c [] = [[]]"
| "split_on c (x # xs) =
     (case split_on c xs of
        [] \<Rightarrow> [[x]]
      | w # ws \<Rightarrow> if x = c then [] # w # ws else (x # w) # ws)"

definition simple_qs :: "bool \<Rightarrow> string option \<Rightarrow> (string \<times> qvalue) list" where
  "simple_qs comma s =
     (case s of
        None \<Rightarrow> []
      | Some str \<Rightarrow>
          map (\<lambda>part.
                 (takeWhile (\<lambda>x. x \<noteq> CHR ''='') part,
                  (let v = drop 1 (dropWhile (\<lambda>x. x \<noteq> CHR ''='') part) in
                   if comma \<and> CHR '','' \<in> set v then QArr (map QStr (split_on CHR '','' v))
                   else QStr v)))
            (filter (\<lambda>part. part \<noteq> []) (split_on CHR ''&'' str)))"

definition digit_value :: "char \<Rightarrow> nat option" where
  "digit_value c =
     (let n = of_char c :: nat in if 48 \<le> n \<and> n \<le> 57 then Some (n - 48) else None)"

fun number_of :: "nat \<Rightarrow> string \<Rightarrow> nat option" where
  "number_of acc [] = Some acc"
| "number_of acc (c # s) =
     (case digit_value c of None \<Rightarrow> None | Some d \<Rightarrow> number_of (10 * acc + d) s)"

definition atoms_parse :: "string \<Rightarrow> string + json" where
  "atoms_parse s =
     (if s = ''null'' then Inr JNull
      else if s = ''true'' then Inr (JBool True)
      else if s = ''false'' then Inr (JBool False)
      else if s = [] then Inl ''Unexpected end of JSON input''
      else (case number_of 0 s of
              Some n \<Rightarrow> Inr (JNum (int n))
            | None \<Rightarrow> Inl ''Unexpected token''))"

definition simple_runtime :: runtime where
  "simple_runtime =
     \<lparr>regexp = simple_engine, JSON_parse = atoms_parse, qs_parse = simple_qs,
      cookie_parse = (\<lambda>s. []), bath_params = (\<lambda>template p. None)\<rparr>"

text \<open>The query parameter \<^verbatim>\<open>{name: n, in: 'query', style: sty, explode: false,
  schema: {type: 'array'}}\<close>, and an operation that declares it as \<^verbatim>\<open>a\<close>.\<close>

definition array_param :: "string \<Rightarrow> string \<Rightarrow> parameter" where
  "array_param n sty =
     \<lparr>name = n, param_in = ''query'', required = False, schema_type = Some ''array'',
      content_json = False, style = Some sty, explode = Some False\<rparr>"

definition list_operation :: "string \<Rightarrow> operation" where
  "list_operation sty =
     \<lparr>op_path = ''/pets'', op_method = ''get'', op_operationId = Some ''getPets'',
      op_parameters = [array_param ''a'' sty], op_security = [],
      op_requestBody_content = None\<rparr>"

text \<open>A request that carries its query as an object, as a transport adapter passes it.\<close>

definition object_query_request :: request where
  "object_query_request =
     \<lparr>method = ''GET'', path = ''/pets'', headers = [],
      query = QueryObject [(''a'', QStr ''1,2,3'')], body = None\<rparr>"

text \<open>
  An operation whose request body is JSON only, a validator object whose compiled
  validators for it accept everything, and a request whose body is not JSON.
\<close>

definition create_operation :: operation where
  "create_operation =
     \<lparr>op_path = ''/pets'', op_method = ''post'', op_operationId = Some ''createPet'',
      op_parameters = [], op_security = [],
      op_requestBody_content = Some [''application/json'']\<rparr>"

definition accepting_validator :: validator where
  "accepting_validator =
     \<lparr>v_router = pets_router,
      requestValidators = map_of [(''createPet'', [\<lambda>given. None, \<lambda>given. None])]\<rparr>"

definition malformed_request :: request where
  "malformed_request =
     \<lparr>method = ''POST'', path = ''/pets'',
      headers = [(''Content-Type'', HStr ''application/json'')],
      query = QueryNotObject, body = Some (JStr ''{name: Garfield'')\<rparr>"





section \<open>Notions used to state the properties of the router\<close>

text \<open>An operation declared at exactly the path \<open>np\<close> with the method \<open>m\<close>.\<close>

definition exact_for :: "string \<Rightarrow> string \<Rightarrow> operation \<Rightarrow> bool" where
  "exact_for np m op \<longleftrightarrow> op_path op = np \<and> op_method op = m"

text \<open>The template of the operation matches the path \<open>np\<close>: the test of the router's
  second filter succeeds.\<close>

definition template_matches :: "regexp_engine \<Rightarrow> string \<Rightarrow> operation \<Rightarrow> bool" where
  "template_matches eng np op \<longleftrightarrow> template_test eng np op = Inr True"

text \<open>A candidate of the template phase: the template matches and the method is \<open>m\<close>.\<close>

definition candidate :: "regexp_engine \<Rightarrow> string \<Rightarrow> string \<Rightarrow> operation \<Rightarrow> bool" where
  "candidate eng np m op \<longleftrightarrow> template_matches eng np op \<and> op_method op = m"

text \<open>The engine reads the pattern of every template of the list (no \<^verbatim>\<open>SyntaxError\<close>).\<close>

definition compiles :: "regexp_engine \<Rightarrow> string \<Rightarrow> operation list \<Rightarrow> bool" where
  "compiles eng np ops \<longleftrightarrow> list_all (\<lambda>op. eng (pathPattern (op_path op)) np \<noteq> None) ops"

text \<open>What the router does when it finds nothing: throw in strict mode, else return
  \<^verbatim>\<open>undefined\<close>.\<close>

definition miss :: "bool \<Rightarrow> exn \<Rightarrow> exn + operation option" where
  "miss strict e = (if strict then Inl e else Inr None)"

text \<open>The message of an exception starts with the given text.\<close>

fun message_begins :: "string \<Rightarrow> exn \<Rightarrow> bool" where
  "message_begins t (Error msg) = prefix t msg"
| "message_begins t (SyntaxError p) = False"
| "message_begins t (TypeError p) = False"

section \<open>Templates, as the specification reads them\<close>

text \<open>
  The notions in which the properties of the lookup are stated, defined on the template
  text alone and not by the router's functions. A placeholder is an opening brace that
  is closed further on in the same line, together with everything up to the first
  closing brace. \<open>closes s\<close> says that a closing brace comes in \<open>s\<close> before any line
  terminator; \<open>fill_placeholders r inside t\<close> reads \<open>t\<close> from the left, \<open>inside\<close> telling
  whether a placeholder is open, and writes \<open>r\<close> for every placeholder.
\<close>

fun closes :: "string \<Rightarrow> bool" where
  "closes [] = False"
| "closes (c # s) = (c = CHR ''}'' \<or> (\<not> is_line_terminator c \<and> closes s))"

fun fill_placeholders :: "string \<Rightarrow> bool \<Rightarrow> string \<Rightarrow> string" where
  "fill_placeholders r inside [] = []"
| "fill_placeholders r inside (c # s) =
     (if inside then
        (if c = CHR ''}'' then fill_placeholders r False s else fill_placeholders r True s)
      else if c = CHR ''{'' \<and> closes s then r @ fill_placeholders r True s
      else c # fill_placeholders r False s)"

text \<open>The template with all its placeholders removed; its length is the specificity.\<close>

definition without_placeholders :: "string \<Rightarrow> string" where
  "without_placeholders t = fill_placeholders [] False t"

text \<open>The regular expression of a template: the whole path, each placeholder standing
  for one or more characters other than a slash.\<close>

definition placeholder_pattern :: "string \<Rightarrow> string" where
  "placeholder_pattern t = CHR ''^'' # fill_placeholders ''[^/]+'' False t @ [CHR ''$'']"

text \<open>The template \<open>t\<close> matches the path \<open>s\<close>: the engine finds a match of the template's
  regular expression in \<open>s\<close>.\<close>

definition template_accepts :: "regexp_engine \<Rightarrow> string \<Rightarrow> string \<Rightarrow> bool" where
  "template_accepts eng t s \<longleftrightarrow>
     (case eng (placeholder_pattern t) s of Some (Some found) \<Rightarrow> True | _ \<Rightarrow> False)"


section \<open>Properties of the normalisation\<close>

lemma is_space_lower: "is_space (lower_char c) = is_space c"
  unfolding is_space_def lower_char_def Let_def by auto

lemma lower_char_idem: "lower_char (lower_char c) = lower_char c"
  unfolding lower_char_def Let_def by auto

lemma last_dropWhile: "dropWhile P s \<noteq> [] \<Longrightarrow> last (dropWhile P s) = last s"
  by (metis last_appendR takeWhile_dropWhile_id)

lemma dropWhile_space_trim: "dropWhile is_space (trim s) = trim s"
proof -
  let ?u = "dropWhile is_space s"
  have "trim s = [] \<or> \<not> is_space (hd (trim s))"
  proof (cases "trim s = []")
    case False
    then have ne: "dropWhile is_space (rev ?u) \<noteq> []" by (simp add: trim_def)
    then have u: "?u \<noteq> []" by (metis dropWhile.simps(1) rev.simps(1))
    have "hd (trim s) = last (dropWhile is_space (rev ?u))"
      using ne by (simp add: trim_def hd_rev)
    also have "\<dots> = last (rev ?u)" using ne by (rule last_dropWhile)
    also have "\<dots> = hd ?u" using u by (simp add: last_rev)
    finally show ?thesis using u hd_dropWhile[of is_space s] by simp
  qed simp
  then show ?thesis by (simp add: dropWhile_eq_self_iff)
qed

lemma trim_idem: "trim (trim s) = trim s"
proof -
  have "rev (trim s) = dropWhile is_space (rev (dropWhile is_space s))"
    by (simp add: trim_def)
  then have "dropWhile is_space (rev (trim s)) = rev (trim s)" by simp
  then show ?thesis unfolding trim_def[of "trim s"] dropWhile_space_trim by simp
qed

lemma trim_toLowerCase: "trim (toLowerCase s) = toLowerCase (trim s)"
  by (simp add: trim_def toLowerCase_def dropWhile_map rev_map comp_def is_space_lower)

lemma toLowerCase_idem: "toLowerCase (toLowerCase s) = toLowerCase s"
  by (simp add: toLowerCase_def lower_char_idem)

lemma normalized_method_idem: "normalized_method (normalized_method m) = normalized_method m"
  by (simp add: normalized_method_def trim_toLowerCase trim_idem toLowerCase_idem)

lemma trim_id: "s \<noteq> [] \<Longrightarrow> \<not> is_space (hd s) \<Longrightarrow> \<not> is_space (last s) \<Longrightarrow> trim s = s"
proof -
  assume a: "s \<noteq> []" "\<not> is_space (hd s)" "\<not> is_space (last s)"
  have 1: "dropWhile is_space s = s" using a by (simp add: dropWhile_eq_self_iff)
  have 2: "dropWhile is_space (rev s) = rev s" using a by (simp add: dropWhile_eq_self_iff hd_rev)
  show ?thesis unfolding trim_def 1 2 by simp
qed

lemma strip_trailing_id: "s \<noteq> [] \<Longrightarrow> last s \<noteq> CHR ''/'' \<Longrightarrow> strip_trailing_slashes s = s"
proof -
  assume a: "s \<noteq> []" "last s \<noteq> CHR ''/''"
  have 2: "dropWhile (\<lambda>x. x = CHR ''/'') (rev s) = rev s"
    using a by (simp add: dropWhile_eq_self_iff hd_rev)
  show ?thesis unfolding strip_trailing_slashes_def 2 by simp
qed

lemma last_strip_trailing:
  "strip_trailing_slashes s \<noteq> [] \<Longrightarrow> last (strip_trailing_slashes s) \<noteq> CHR ''/''"
  using hd_dropWhile[of "\<lambda>x. x = CHR ''/''" "rev s"]
  by (simp add: strip_trailing_slashes_def last_rev)

lemma normalized_path_fixed:
  assumes "\<not> is_space (last (normalized_path p))"
  shows "normalized_path (normalized_path p) = normalized_path p"
proof -
  define s where "s = strip_trailing_slashes (split_0 CHR ''?'' (trim p))"
  define t where "t = dropWhile (\<lambda>x. x = CHR ''/'') s"
  have np: "normalized_path p = CHR ''/'' # t"
    by (simp add: normalized_path_def single_leading_slash_def s_def t_def)
  have noq: "CHR ''?'' \<notin> set (CHR ''/'' # t)"
  proof -
    have "set t \<subseteq> set s" unfolding t_def by (auto dest: set_dropWhileD)
    moreover have "set s \<subseteq> set (split_0 CHR ''?'' (trim p))"
      unfolding s_def strip_trailing_slashes_def by (auto dest: set_dropWhileD)
    moreover have "CHR ''?'' \<notin> set (split_0 CHR ''?'' (trim p))"
      unfolding split_0_def by (auto dest: set_takeWhileD)
    ultimately show ?thesis by auto
  qed
  have nsp: "\<not> is_space (CHR ''/'')" by (simp add: is_space_def)
  have tr: "trim (CHR ''/'' # t) = CHR ''/'' # t"
    using assms nsp unfolding np by (intro trim_id) auto
  have sp: "split_0 CHR ''?'' (CHR ''/'' # t) = CHR ''/'' # t"
    unfolding split_0_def using noq by auto
  show ?thesis
  proof (cases "t = []")
    case True
    then show ?thesis
      unfolding np unfolding normalized_path_def tr sp
      by (simp add: strip_trailing_slashes_def single_leading_slash_def)
  next
    case False
    then have "last t = last s" unfolding t_def by (rule last_dropWhile)
    moreover have "s \<noteq> []" using False t_def by auto
    then have "last s \<noteq> CHR ''/''"
      unfolding s_def by (rule last_strip_trailing)
    ultimately have lt: "last t \<noteq> CHR ''/''" by simp
    have st: "strip_trailing_slashes (CHR ''/'' # t) = CHR ''/'' # t"
      using False lt by (intro strip_trailing_id) auto
    have "dropWhile (\<lambda>x. x = CHR ''/'') t = t" unfolding t_def by simp
    then show ?thesis
      unfolding np unfolding normalized_path_def tr sp st
      by (simp add: single_leading_slash_def)
  qed
qed

lemma strip_trailing_prefix: "prefix (strip_trailing_slashes s) s"
proof -
  have "rev s = takeWhile (\<lambda>x. x = CHR ''/'') (rev s) @ dropWhile (\<lambda>x. x = CHR ''/'') (rev s)"
    by simp
  then have "s = rev (dropWhile (\<lambda>x. x = CHR ''/'') (rev s)) @
                 rev (takeWhile (\<lambda>x. x = CHR ''/'') (rev s))"
    by (metis rev_append rev_rev_ident)
  then show ?thesis unfolding strip_trailing_slashes_def by (metis prefixI)
qed

lemma length_normalized_path_le:
  assumes "hd (trim p) = CHR ''/''" "trim p \<noteq> []"
  shows "length (normalized_path p) \<le> length (trim p)"
proof -
  obtain y where y: "trim p = CHR ''/'' # y" using assms by (cases "trim p") auto
  define s where "s = strip_trailing_slashes (split_0 CHR ''?'' (trim p))"
  have np: "normalized_path p = CHR ''/'' # dropWhile (\<lambda>x. x = CHR ''/'') s"
    by (simp add: normalized_path_def single_leading_slash_def s_def)
  have "prefix s (split_0 CHR ''?'' (trim p))"
    unfolding s_def by (rule strip_trailing_prefix)
  moreover have "prefix (split_0 CHR ''?'' (trim p)) (trim p)"
    unfolding split_0_def by (rule takeWhile_is_prefix)
  ultimately have pre: "prefix s (trim p)" by (rule prefix_order.order_trans)
  show ?thesis
  proof (cases "s = []")
    case True
    then show ?thesis using y by (simp add: np)
  next
    case False
    then obtain s' where s': "s = CHR ''/'' # s'" using pre y by (cases s) auto
    have "length (dropWhile (\<lambda>x. x = CHR ''/'') s') \<le> length s'" by (rule length_dropWhile_le)
    moreover have "length s \<le> length (trim p)" using pre by (rule prefix_length_le)
    ultimately show ?thesis by (simp add: np s')
  qed
qed

lemma normalized_path_not_fixed:
  assumes "is_space (last (normalized_path p))"
  shows "normalized_path (normalized_path p) \<noteq> normalized_path p"
proof -
  define q where "q = normalized_path p"
  obtain t where q: "q = CHR ''/'' # t"
    by (simp add: q_def normalized_path_def single_leading_slash_def)
  have nsp: "\<not> is_space (CHR ''/'')" by (simp add: is_space_def)
  have t: "t \<noteq> []" using assms nsp q unfolding q_def[symmetric] by auto
  have d1: "dropWhile is_space q = q" using nsp q by simp
  have "rev q = rev t @ [CHR ''/'']" using q by simp
  then have d2: "dropWhile is_space (rev q) = dropWhile is_space (rev t) @ [CHR ''/'']"
    using nsp by (simp add: dropWhile_append3)
  have tq: "trim q = CHR ''/'' # rev (dropWhile is_space (rev t))"
    unfolding trim_def d1 d2 by simp
  have "is_space (hd (rev t))" using assms t q unfolding q_def[symmetric] by (simp add: hd_rev)
  then have "length (dropWhile is_space (rev t)) < length (rev t)"
    using t by (cases "rev t") (auto simp: le_imp_less_Suc length_dropWhile_le)
  then have "length (trim q) < length q" using tq q by simp
  moreover have "length (normalized_path q) \<le> length (trim q)"
    by (rule length_normalized_path_le) (simp_all add: tq)
  ultimately show ?thesis unfolding q_def[symmetric] by auto
qed

lemma normalizeRequest_twice:
  "normalizeRequest (normalizeRequest req) = normalizeRequest req \<longleftrightarrow>
   normalized_path (normalized_path (path req)) = normalized_path (path req)"
proof
  assume "normalizeRequest (normalizeRequest req) = normalizeRequest req"
  then have "path (normalizeRequest (normalizeRequest req)) = path (normalizeRequest req)"
    by simp
  then show "normalized_path (normalized_path (path req)) = normalized_path (path req)"
    by (simp add: normalizeRequest_def)
next
  assume "normalized_path (normalized_path (path req)) = normalized_path (path req)"
  then show "normalizeRequest (normalizeRequest req) = normalizeRequest req"
    by (simp add: normalizeRequest_def normalized_method_idem)
qed

text \<open>
  Claim C8, as amended. \<^verbatim>\<open>normalizeRequest\<close> trims the path before it cuts the query
  string off, so white space that stood before the \<^verbatim>\<open>?\<close> (or before a trailing slash)
  ends the normalised path, and a second application trims it. For every request
  (whose strings have code units below 256), normalising twice gives the same request
  as normalising once exactly when the normalised path does not end in white space;
  the method is stable in every case.
\<close>

theorem normalizeRequest_idempotent_iff:
  "normalizeRequest (normalizeRequest req) = normalizeRequest req \<longleftrightarrow>
   \<not> is_space (last (path (normalizeRequest req)))"
proof -
  have p: "path (normalizeRequest req) = normalized_path (path req)"
    by (simp add: normalizeRequest_def)
  have "normalized_path (normalized_path (path req)) = normalized_path (path req) \<longleftrightarrow>
    \<not> is_space (last (normalized_path (path req)))"
    using normalized_path_fixed[of "path req"] normalized_path_not_fixed[of "path req"] by blast
  then show ?thesis
    unfolding p using normalizeRequest_twice[of req] by simp
qed

theorem normalizeRequest_idempotent_witness:
  "\<not> is_space (last (path (normalizeRequest (plain_request '' GeT'' ''pets//?limit=1'')))) \<and>
   normalizeRequest (normalizeRequest (plain_request '' GeT'' ''pets//?limit=1'')) =
     normalizeRequest (plain_request '' GeT'' ''pets//?limit=1'')"
proof -
  have h: "\<not> is_space (last (path (normalizeRequest (plain_request '' GeT'' ''pets//?limit=1''))))"
    by code_simp
  from h show ?thesis
    using normalizeRequest_idempotent_iff [of "plain_request '' GeT'' ''pets//?limit=1''"] by simp
qed

text \<open>
  Claim C8 as stated fails: the request \<^verbatim>\<open>GET /pets ?limit=1\<close> normalises to the path
  \<^verbatim>\<open>"/pets "\<close> (with the space), and normalising that gives \<^verbatim>\<open>"/pets"\<close>. The same happens
  with a no-break space before the question mark.
\<close>

theorem normalizeRequest_idempotent_counterexample:
  "path (normalizeRequest (plain_request ''GET'' ''/pets ?limit=1'')) = ''/pets '' \<and>
   path (normalizeRequest (normalizeRequest (plain_request ''GET'' ''/pets ?limit=1''))) = ''/pets'' \<and>
   path (normalizeRequest (plain_request ''GET'' [CHR ''/'', CHR ''a'', CHR 0xA0, CHR ''?''])) =
     [CHR ''/'', CHR ''a'', CHR 0xA0] \<and>
   path (normalizeRequest (normalizeRequest
     (plain_request ''GET'' [CHR ''/'', CHR ''a'', CHR 0xA0, CHR ''?'']))) = ''/a''"
  by code_simp

section \<open>Properties of the operation index\<close>

lemma in_pick: "(m, ob) \<in> set (pick obj ks) \<longleftrightarrow> m \<in> set ks \<and> map_of obj m = Some ob"
  unfolding pick_def by (induction ks) (auto simp: List.map_filter_simps split: option.splits)

lemma in_getOperations:
  "op \<in> set (getOperations r) \<longleftrightarrow>
   (\<exists>p item m ob. (p, item) \<in> set (paths (router_definition r)) \<and> m \<in> set http_methods \<and>
      map_of (item_operations item) m = Some ob \<and>
      op = flatten_operation (router_definition r) p item (m, ob))"
  unfolding getOperations_def by (force simp: in_pick)

lemma find_app:
  "find P (xs @ ys) = (case find P xs of Some x \<Rightarrow> Some x | None \<Rightarrow> find P ys)"
  by (induction xs) auto

text \<open>
  Claim C7, as amended. The merged list of an Operation record is the operation's own
  parameters followed by the path item's, and nothing is removed from it: an entry of
  the path level that repeats the name and location of an entry of the operation level
  stays in the list. What holds is that the operation-level entry comes first, so the
  first-match lookup by name and location finds it.
\<close>

theorem getOperations_parameters_merged:
  assumes "op \<in> set (getOperations r)"
  shows "\<exists>p item ob. (p, item) \<in> set (paths (router_definition r)) \<and> op_path op = p \<and>
           op_method op \<in> set http_methods \<and>
           map_of (item_operations item) (op_method op) = Some ob \<and>
           op_parameters op = or_else (parameters ob) [] @ or_else (item_parameters item) [] \<and>
           (\<forall>n i. find (same_key n i) (op_parameters op) =
              (case find (same_key n i) (or_else (parameters ob) []) of
                 Some q \<Rightarrow> Some q
               | None \<Rightarrow> find (same_key n i) (or_else (item_parameters item) [])))"
proof -
  obtain p item m ob where h: "(p, item) \<in> set (paths (router_definition r))"
      "m \<in> set http_methods" "map_of (item_operations item) m = Some ob"
      "op = flatten_operation (router_definition r) p item (m, ob)"
    using assms unfolding in_getOperations by blast
  have "op_path op = p" "op_method op = m"
    "op_parameters op = or_else (parameters ob) [] @ or_else (item_parameters item) []"
    using h(4) by (simp_all add: flatten_operation_def)
  then show ?thesis
    using h(1-3) by (intro exI[of _ p] exI[of _ item] exI[of _ ob]) (simp add: find_app)
qed

theorem getOperations_parameters_merged_witness:
  "hd (getOperations dup_router) \<in> set (getOperations dup_router) \<and>
   (\<exists>p item ob. (p, item) \<in> set (paths (router_definition dup_router)) \<and> op_path (hd (getOperations dup_router)) = p \<and>
      op_method (hd (getOperations dup_router)) \<in> set http_methods \<and>
      map_of (item_operations item) (op_method (hd (getOperations dup_router))) = Some ob \<and>
      op_parameters (hd (getOperations dup_router)) =
        or_else (parameters ob) [] @ or_else (item_parameters item) [] \<and>
      (\<forall>n i. find (same_key n i) (op_parameters (hd (getOperations dup_router))) =
         (case find (same_key n i) (or_else (parameters ob) []) of
            Some q \<Rightarrow> Some q
          | None \<Rightarrow> find (same_key n i) (or_else (item_parameters item) []))))"
proof -
  have m: "hd (getOperations dup_router) \<in> set (getOperations dup_router)"
    by code_simp
  show ?thesis
    using m getOperations_parameters_merged [OF m] by (rule conjI)
qed

text \<open>
  Claim C7 as stated fails: for \<open>dup_doc\<close> the merged list holds both declarations of
  \<^verbatim>\<open>id\<close> in \<^verbatim>\<open>path\<close>, the operation's first.
\<close>

theorem getOperations_parameters_counterexample:
  "map op_parameters (getOperations dup_router) = [[id_param ''integer'', id_param ''string'']] \<and>
   map (\<lambda>q. (name q, param_in q)) [id_param ''integer'', id_param ''string''] =
     [(''id'', ''path''), (''id'', ''path'')]"
  by code_simp

section \<open>Properties of the router\<close>

subsection \<open>Searching a list, and a list ordered by a key\<close>

lemma find_as_filter:
  "find P xs = (case filter P xs of [] \<Rightarrow> None | x # _ \<Rightarrow> Some x)"
  by (induction xs) auto

lemma find_filter_conj: "find P (filter T xs) = find (\<lambda>x. T x \<and> P x) xs"
  by (induction xs) auto

lemma find_Some_split:
  assumes "find P xs = Some r"
  shows "\<exists>pre post. xs = pre @ r # post \<and> P r \<and> (\<forall>x\<in>set pre. \<not> P x)"
  using assms
proof (induction xs)
  case Nil
  then show ?case by simp
next
  case (Cons a xs)
  show ?case
  proof (cases "P a")
    case True
    with Cons.prems have "a = r" by simp
    with True show ?thesis by (intro exI[of _ "[]"] exI[of _ xs]) simp
  next
    case False
    with Cons obtain pre post where "xs = pre @ r # post" "P r" "\<forall>x\<in>set pre. \<not> P x"
      by auto
    with False show ?thesis by (intro exI[of _ "a # pre"] exI[of _ post]) simp
  qed
qed

lemma find_sort_key_least:
  assumes "find P (sort_key f xs) = Some r" "P c" "c \<in> set xs"
  shows "f r \<le> f c"
proof -
  obtain pre post where s: "sort_key f xs = pre @ r # post" "\<forall>x\<in>set pre. \<not> P x"
    using find_Some_split[OF assms(1)] by blast
  have "sorted (map f (pre @ r # post))" using sorted_sort_key[of f xs] s(1) by simp
  then have "\<forall>y\<in>set (r # post). f r \<le> f y" by (auto simp: sorted_append)
  moreover have "c \<in> set (pre @ r # post)" using assms(3) s(1) by (metis set_sort)
  then have "c \<in> set (r # post)" using s(2) assms(2) by auto
  ultimately show ?thesis by blast
qed

lemma find_sort_key_first:
  assumes "find P (sort_key f xs) = Some r"
  shows "find (\<lambda>y. f y = f r \<and> P y) xs = Some r"
proof -
  obtain pre post where s: "sort_key f xs = pre @ r # post" "P r" "\<forall>x\<in>set pre. \<not> P x"
    using find_Some_split[OF assms] by blast
  have "filter (\<lambda>y. f y = f r \<and> P y) (sort_key f xs) = r # filter (\<lambda>y. f y = f r \<and> P y) post"
    unfolding s(1) using s(2,3) by (simp add: filter_empty_conv)
  moreover have "filter (\<lambda>y. f y = f r \<and> P y) (sort_key f xs) = filter (\<lambda>y. f y = f r \<and> P y) xs"
  proof -
    have "filter P (filter (\<lambda>y. f y = f r) (sort_key f xs)) = filter P (filter (\<lambda>y. f y = f r) xs)"
      by (simp only: sort_key_stable)
    then show ?thesis by (simp add: conj_commute)
  qed
  ultimately show ?thesis by (simp add: find_as_filter)
qed

lemma find_orderBy_desc_split:
  assumes "find P (orderBy_desc key xs) = Some r"
  shows "\<exists>pre post. xs = pre @ r # post \<and> P r \<and>
           (\<forall>x\<in>set pre. P x \<longrightarrow> key x < key r) \<and>
           (\<forall>x\<in>set post. P x \<longrightarrow> key x \<le> key r)"
proof -
  let ?f = "\<lambda>x. - int (key x)"
  have a: "find P (sort_key ?f xs) = Some r" using assms by (simp add: orderBy_desc_def)
  obtain pre post where s: "xs = pre @ r # post" "P r"
      "\<forall>x\<in>set pre. \<not> (?f x = ?f r \<and> P x)"
    using find_Some_split[OF find_sort_key_first[OF a]] by blast
  have le: "\<And>y. y \<in> set xs \<Longrightarrow> P y \<Longrightarrow> key y \<le> key r"
    using find_sort_key_least[OF a] by fastforce
  have "\<forall>x\<in>set pre. P x \<longrightarrow> key x < key r"
  proof (intro ballI impI)
    fix y assume y: "y \<in> set pre" "P y"
    then have "key y \<le> key r" using le s(1) by simp
    moreover have "key y \<noteq> key r" using s(3) y by auto
    ultimately show "key y < key r" by simp
  qed
  moreover have "\<forall>x\<in>set post. P x \<longrightarrow> key x \<le> key r" using le s(1) by simp
  ultimately show ?thesis using s(1,2) by blast
qed

lemma find_orderBy_desc_None:
  "find P (orderBy_desc key xs) = None \<longleftrightarrow> \<not> (\<exists>x\<in>set xs. P x)"
  by (auto simp: orderBy_desc_def find_None_iff)

lemma filter_sort_key_comm: "filter T (sort_key f xs) = sort_key f (filter T xs)"
  by (rule filter_sort)

lemma find_orderBy_desc_filter:
  "find P (orderBy_desc key (filter T xs)) = find (\<lambda>x. T x \<and> P x) (orderBy_desc key xs)"
  by (simp add: orderBy_desc_def find_filter_conj flip: filter_sort)

lemma filter_throwing_total:
  "\<forall>x\<in>set xs. \<exists>b. f x = Inr b \<Longrightarrow>
   filter_throwing f xs = Inr (filter (\<lambda>x. f x = Inr True) xs)"
  by (induction xs) auto

lemma filter_throwing_Inr:
  "filter_throwing f xs = Inr ys \<Longrightarrow>
   (\<forall>x\<in>set xs. \<exists>b. f x = Inr b) \<and> ys = filter (\<lambda>x. f x = Inr True) xs"
proof (induction xs arbitrary: ys)
  case Nil
  then show ?case by simp
next
  case (Cons a xs)
  from Cons.prems obtain b zs where h: "f a = Inr b" "filter_throwing f xs = Inr zs"
      "ys = (if b then a # zs else zs)"
    by (auto split: sum.splits)
  from Cons.IH[OF h(2)] h(1,3) show ?case by auto
qed

lemma filter_throwing_Inl:
  "filter_throwing f xs = Inl e \<Longrightarrow> \<exists>x\<in>set xs. f x = Inl e"
  by (induction xs) (auto split: sum.splits)

subsection \<open>The phases of matchOperation\<close>

lemma matchOperation_gate_closed:
  "\<not> prefix (apiRoot r) (path (normalizeRequest req)) \<Longrightarrow>
   matchOperation eng r req strict = miss strict notFound"
  by (simp add: matchOperation_def miss_def Let_def)

lemma matchOperation_phases:
  assumes "prefix (apiRoot r) (path (normalizeRequest req))"
    and "normalizePath eng r (path (normalizeRequest req)) = Inr np"
  shows "matchOperation eng r req strict =
     (case find (exact_for np (method (normalizeRequest req))) (getOperations r) of
        Some op \<Rightarrow> Inr (Some op)
      | None \<Rightarrow>
         (case filter_throwing (template_test eng np) (getOperations r) of
            Inl e \<Rightarrow> Inl e
          | Inr tm \<Rightarrow>
             (if tm = [] then miss strict notFound
              else (case find (\<lambda>op. op_method op = method (normalizeRequest req))
                           (orderBy_desc specificity tm) of
                      None \<Rightarrow> miss strict methodNotAllowed
                    | Some op \<Rightarrow> Inr (Some op)))))"
proof -
  have "find (\<lambda>op. op_method op = method (normalizeRequest req))
          (filter (\<lambda>op. op_path op = np) (getOperations r)) =
        find (exact_for np (method (normalizeRequest req))) (getOperations r)"
    by (simp add: find_filter_conj exact_for_def[abs_def])
  then show ?thesis
    using assms by (simp add: matchOperation_def miss_def Let_def split: option.splits sum.splits)
qed

lemma matchOperation_exact:
  assumes "prefix (apiRoot r) (path (normalizeRequest req))"
    and "normalizePath eng r (path (normalizeRequest req)) = Inr np"
    and "find (exact_for np (method (normalizeRequest req))) (getOperations r) = Some e"
  shows "matchOperation eng r req strict = Inr (Some e)"
  using assms(3) by (simp add: matchOperation_phases[OF assms(1,2)])

lemma compiles_total:
  "compiles eng np ops \<Longrightarrow> \<forall>x\<in>set ops. \<exists>b. template_test eng np x = Inr b"
  by (auto simp: compiles_def list_all_iff template_test_def split: option.splits)

lemma matchOperation_templates:
  assumes "prefix (apiRoot r) (path (normalizeRequest req))"
    and "normalizePath eng r (path (normalizeRequest req)) = Inr np"
    and "find (exact_for np (method (normalizeRequest req))) (getOperations r) = None"
    and "compiles eng np (getOperations r)"
  shows "matchOperation eng r req strict =
     (if \<not> (\<exists>op\<in>set (getOperations r). template_matches eng np op) then miss strict notFound
      else (case find (candidate eng np (method (normalizeRequest req)))
                   (orderBy_desc specificity (getOperations r)) of
              None \<Rightarrow> miss strict methodNotAllowed
            | Some op \<Rightarrow> Inr (Some op)))"
proof -
  have ft: "filter_throwing (template_test eng np) (getOperations r) =
        Inr (filter (template_matches eng np) (getOperations r))"
    using filter_throwing_total[OF compiles_total[OF assms(4)]]
    by (simp add: template_matches_def[abs_def])
  have e: "filter (template_matches eng np) (getOperations r) = [] \<longleftrightarrow>
        \<not> (\<exists>op\<in>set (getOperations r). template_matches eng np op)"
    by (auto simp: filter_empty_conv)
  have c: "find (\<lambda>op. op_method op = method (normalizeRequest req))
          (orderBy_desc specificity (filter (template_matches eng np) (getOperations r))) =
        find (candidate eng np (method (normalizeRequest req)))
          (orderBy_desc specificity (getOperations r))"
    by (simp add: find_orderBy_desc_filter candidate_def[abs_def])
  have "matchOperation eng r req strict =
     (if filter (template_matches eng np) (getOperations r) = [] then miss strict notFound
      else (case find (\<lambda>op. op_method op = method (normalizeRequest req))
                   (orderBy_desc specificity (filter (template_matches eng np) (getOperations r))) of
              None \<Rightarrow> miss strict methodNotAllowed
            | Some op \<Rightarrow> Inr (Some op)))"
    by (simp only: matchOperation_phases[OF assms(1,2)] assms(3) ft option.case sum.case)
  then show ?thesis unfolding c e by simp
qed

lemma find_exact_None:
  "find (exact_for np m) ops = None \<longleftrightarrow> \<not> (\<exists>op\<in>set ops. exact_for np m op)"
  by (auto simp: find_None_iff)

lemma find_exists_Some: "\<exists>x\<in>set xs. P x \<Longrightarrow> \<exists>y. find P xs = Some y"
  by (cases "find P xs") (auto simp: find_None_iff)

lemma matchOperation_top_candidate:
  assumes "prefix (apiRoot r) (path (normalizeRequest req))"
    and "normalizePath eng r (path (normalizeRequest req)) = Inr np"
    and "\<not> (\<exists>op\<in>set (getOperations r). exact_for np (method (normalizeRequest req)) op)"
    and "compiles eng np (getOperations r)"
    and "\<exists>op\<in>set (getOperations r). candidate eng np (method (normalizeRequest req)) op"
  shows "\<exists>pre w post. getOperations r = pre @ w # post \<and>
           candidate eng np (method (normalizeRequest req)) w \<and>
           (\<forall>x\<in>set pre. candidate eng np (method (normalizeRequest req)) x \<longrightarrow>
                specificity x < specificity w) \<and>
           (\<forall>x\<in>set post. candidate eng np (method (normalizeRequest req)) x \<longrightarrow>
                specificity x \<le> specificity w) \<and>
           matchOperation eng r req strict = Inr (Some w)"
proof -
  let ?m = "method (normalizeRequest req)"
  have tm: "\<exists>op\<in>set (getOperations r). template_matches eng np op"
    using assms(5) by (auto simp: candidate_def)
  have "\<exists>x\<in>set (orderBy_desc specificity (getOperations r)). candidate eng np ?m x"
    using assms(5) by (simp add: orderBy_desc_def)
  from find_exists_Some[OF this]
  obtain w where w: "find (candidate eng np ?m) (orderBy_desc specificity (getOperations r)) = Some w"
    by (rule exE)
  have res: "matchOperation eng r req strict = Inr (Some w)"
    using matchOperation_templates[OF assms(1,2) _ assms(4), of strict] assms(3) tm w
    by (simp add: find_exact_None)
  from find_orderBy_desc_split[OF w]
  obtain pre post where "getOperations r = pre @ w # post" "candidate eng np ?m w"
      "\<forall>x\<in>set pre. candidate eng np ?m x \<longrightarrow> specificity x < specificity w"
      "\<forall>x\<in>set post. candidate eng np ?m x \<longrightarrow> specificity x \<le> specificity w"
    by (elim exE conjE)
  with res show ?thesis by (intro exI[of _ pre] exI[of _ w] exI[of _ post]) simp
qed

lemma not_compiles_throws:
  "\<not> compiles eng np ops \<Longrightarrow>
   \<exists>p. filter_throwing (template_test eng np) ops = Inl (SyntaxError p)"
proof (induction ops)
  case Nil
  then show ?case by (simp add: compiles_def)
next
  case (Cons a ops)
  show ?case
  proof (cases "eng (pathPattern (op_path a)) np")
    case None
    then show ?thesis by (simp add: template_test_def)
  next
    case (Some m)
    with Cons.prems have "\<not> compiles eng np ops" by (simp add: compiles_def)
    from Cons.IH[OF this] Some show ?thesis by (auto simp: template_test_def)
  qed
qed

lemma matchOperation_errors_when_compiled:
  assumes "prefix (apiRoot r) (path (normalizeRequest req))"
    and "normalizePath eng r (path (normalizeRequest req)) = Inr np"
    and "\<not> (\<exists>op\<in>set (getOperations r). exact_for np (method (normalizeRequest req)) op)"
    and "compiles eng np (getOperations r)"
  shows "(\<not> (\<exists>op\<in>set (getOperations r). template_matches eng np op) \<longrightarrow>
            matchOperation eng r req True = Inl notFound \<and>
            matchOperation eng r req False = Inr None) \<and>
         ((\<exists>op\<in>set (getOperations r). template_matches eng np op) \<and>
          \<not> (\<exists>op\<in>set (getOperations r). candidate eng np (method (normalizeRequest req)) op) \<longrightarrow>
            matchOperation eng r req True = Inl methodNotAllowed \<and>
            matchOperation eng r req False = Inr None)"
proof -
  have n: "find (exact_for np (method (normalizeRequest req))) (getOperations r) = None"
    using assms(3) by (simp add: find_exact_None)
  have f: "find (candidate eng np (method (normalizeRequest req)))
             (orderBy_desc specificity (getOperations r)) = None \<longleftrightarrow>
           \<not> (\<exists>op\<in>set (getOperations r). candidate eng np (method (normalizeRequest req)) op)"
    by (rule find_orderBy_desc_None)
  show ?thesis
  proof (cases "find (candidate eng np (method (normalizeRequest req)))
             (orderBy_desc specificity (getOperations r))")
    case None
    then show ?thesis
      unfolding matchOperation_templates[OF assms(1,2) n assms(4)] by (simp add: miss_def)
  next
    case (Some w)
    then have "\<exists>op\<in>set (getOperations r). candidate eng np (method (normalizeRequest req)) op"
      using f by simp
    then show ?thesis
      unfolding matchOperation_templates[OF assms(1,2) n assms(4)]
      by (auto simp: miss_def candidate_def)
  qed
qed

lemma matchOperation_gate_closed_errors:
  assumes "\<not> prefix (apiRoot r) (path (normalizeRequest req))"
  shows "matchOperation eng r req True = Inl notFound \<and> matchOperation eng r req False = Inr None"
  using assms by (simp add: matchOperation_gate_closed miss_def)

lemma error_prefixes:
  "message_begins ''404-notFound:'' notFound \<and>
   message_begins ''405-methodNotAllowed:'' methodNotAllowed"
  by (simp add: notFound_def methodNotAllowed_def)


subsection \<open>The router's template functions and the templates of the specification\<close>

lemma closes_brace_end: "closes s \<longleftrightarrow> brace_end s \<noteq> None"
  by (induction s) auto

lemma fill_placeholders_inside:
  "brace_end s = Some rest \<Longrightarrow> fill_placeholders r True s = fill_placeholders r False rest"
  by (induction s) (auto split: if_splits)

lemma replace_braces_fill: "replace_braces r t = fill_placeholders r False t"
proof (induction r t rule: replace_braces.induct)
  case (1 r)
  show ?case by simp
next
  case (2 r c s)
  show ?case
  proof (cases "c = CHR ''{''")
    case False
    with 2 show ?thesis by simp
  next
    case True
    show ?thesis
    proof (cases "brace_end s")
      case None
      then have "\<not> closes s" by (simp add: closes_brace_end)
      with True None 2 show ?thesis by simp
    next
      case (Some rest)
      then have "closes s" by (simp add: closes_brace_end)
      with True Some 2(2)[OF True Some] fill_placeholders_inside[OF Some, of r]
      show ?thesis by simp
    qed
  qed
qed

lemma pathPattern_placeholder: "pathPattern t = placeholder_pattern t"
  by (simp add: pathPattern_def placeholder_pattern_def replace_braces_fill)

lemma specificity_without: "specificity op = length (without_placeholders (op_path op))"
  by (simp add: specificity_def without_placeholders_def replace_braces_fill)

lemma template_matches_accepts:
  "template_matches eng np op \<longleftrightarrow> template_accepts eng (op_path op) np"
  by (simp add: template_matches_def template_test_def template_accepts_def
      pathPattern_placeholder split: option.splits)

lemma candidate_accepts:
  "candidate eng np m op \<longleftrightarrow> template_accepts eng (op_path op) np \<and> op_method op = m"
  by (simp add: candidate_def template_matches_accepts)

lemma compiles_placeholder:
  "compiles eng np ops \<longleftrightarrow> (\<forall>op\<in>set ops. eng (placeholder_pattern (op_path op)) np \<noteq> None)"
  by (simp add: compiles_def list_all_iff pathPattern_placeholder)



text \<open>
  Claim C1, as amended. The claim holds for the requests that pass the gate of
  \<^verbatim>\<open>apiRoot\<close>: the normalised path starts with \<^verbatim>\<open>apiRoot\<close>, and the engine accepts the
  pattern of the root, so that \<open>normalizePath\<close> returns the path \<open>np\<close> relative to the
  root. Then, whatever the engine and in both modes: if an operation is declared at
  exactly \<open>np\<close> with the normalised method, the first such operation of the index is
  returned; otherwise, if the engine accepts the pattern of every template and some
  operation whose template matches \<open>np\<close> (each placeholder standing for one or more
  characters other than a slash) has the method, the operation returned is such a
  candidate \<open>w\<close>, every candidate before it in the index has a strictly shorter template
  once the placeholders are removed, and every candidate after it has one at most as
  long: the first by that length, descending, ties by index. A request that does not
  pass the gate is answered without any lookup.
\<close>

theorem matchOperation_lookup_order:
  assumes "prefix (apiRoot r) (path (normalizeRequest req))"
    and "normalizePath eng r (path (normalizeRequest req)) = Inr np"
  shows "((\<exists>op\<in>set (getOperations r).
             op_path op = np \<and> op_method op = method (normalizeRequest req)) \<longrightarrow>
          (\<exists>pre e post. getOperations r = pre @ e # post \<and>
             op_path e = np \<and> op_method e = method (normalizeRequest req) \<and>
             (\<forall>x\<in>set pre. \<not> (op_path x = np \<and> op_method x = method (normalizeRequest req))) \<and>
             matchOperation eng r req strict = Inr (Some e))) \<and>
         (\<not> (\<exists>op\<in>set (getOperations r).
               op_path op = np \<and> op_method op = method (normalizeRequest req)) \<and>
          (\<forall>op\<in>set (getOperations r). eng (placeholder_pattern (op_path op)) np \<noteq> None) \<and>
          (\<exists>op\<in>set (getOperations r).
             template_accepts eng (op_path op) np \<and> op_method op = method (normalizeRequest req)) \<longrightarrow>
          (\<exists>pre w post. getOperations r = pre @ w # post \<and>
             template_accepts eng (op_path w) np \<and> op_method w = method (normalizeRequest req) \<and>
             (\<forall>x\<in>set pre.
                template_accepts eng (op_path x) np \<and> op_method x = method (normalizeRequest req) \<longrightarrow>
                length (without_placeholders (op_path x)) < length (without_placeholders (op_path w))) \<and>
             (\<forall>x\<in>set post.
                template_accepts eng (op_path x) np \<and> op_method x = method (normalizeRequest req) \<longrightarrow>
                length (without_placeholders (op_path x)) \<le> length (without_placeholders (op_path w))) \<and>
             matchOperation eng r req strict = Inr (Some w)))"
proof -
  let ?m = "method (normalizeRequest req)"
  have A: "(\<exists>op\<in>set (getOperations r). exact_for np ?m op) \<longrightarrow>
          (\<exists>pre e post. getOperations r = pre @ e # post \<and> exact_for np ?m e \<and>
             (\<forall>x\<in>set pre. \<not> exact_for np ?m x) \<and>
             matchOperation eng r req strict = Inr (Some e))"
  proof
    assume "\<exists>op\<in>set (getOperations r). exact_for np ?m op"
    from find_exists_Some[OF this]
    obtain e where e: "find (exact_for np ?m) (getOperations r) = Some e"
      by (rule exE)
    from find_Some_split[OF e]
    obtain pre post where "getOperations r = pre @ e # post" "exact_for np ?m e"
        "\<forall>x\<in>set pre. \<not> exact_for np ?m x"
      by (elim exE conjE)
    with matchOperation_exact[OF assms e, of strict]
    show "\<exists>pre e post. getOperations r = pre @ e # post \<and> exact_for np ?m e \<and>
               (\<forall>x\<in>set pre. \<not> exact_for np ?m x) \<and>
               matchOperation eng r req strict = Inr (Some e)"
      by (intro exI[of _ pre] exI[of _ e] exI[of _ post]) simp
  qed
  have B: "\<not> (\<exists>op\<in>set (getOperations r). exact_for np ?m op) \<and>
          compiles eng np (getOperations r) \<and>
          (\<exists>op\<in>set (getOperations r). candidate eng np ?m op) \<longrightarrow>
          (\<exists>pre w post. getOperations r = pre @ w # post \<and>
             candidate eng np ?m w \<and>
             (\<forall>x\<in>set pre. candidate eng np ?m x \<longrightarrow> specificity x < specificity w) \<and>
             (\<forall>x\<in>set post. candidate eng np ?m x \<longrightarrow> specificity x \<le> specificity w) \<and>
             matchOperation eng r req strict = Inr (Some w))"
  proof
    assume a: "\<not> (\<exists>op\<in>set (getOperations r). exact_for np ?m op) \<and>
          compiles eng np (getOperations r) \<and>
          (\<exists>op\<in>set (getOperations r). candidate eng np ?m op)"
    show "\<exists>pre w post. getOperations r = pre @ w # post \<and>
             candidate eng np ?m w \<and>
             (\<forall>x\<in>set pre. candidate eng np ?m x \<longrightarrow> specificity x < specificity w) \<and>
             (\<forall>x\<in>set post. candidate eng np ?m x \<longrightarrow> specificity x \<le> specificity w) \<and>
             matchOperation eng r req strict = Inr (Some w)"
      using a by (intro matchOperation_top_candidate[OF assms]) simp_all
  qed
  from A B show ?thesis
    unfolding exact_for_def candidate_accepts compiles_placeholder specificity_without conj_assoc
    by (rule conjI)
qed

theorem matchOperation_lookup_order_witness:
  "prefix (apiRoot pets_router) (path (normalizeRequest (plain_request ''GET'' ''/pets/meta/?x=1''))) \<and>
   normalizePath simple_engine pets_router
     (path (normalizeRequest (plain_request ''GET'' ''/pets/meta/?x=1''))) = Inr ''/pets/meta'' \<and>
   method (normalizeRequest (plain_request ''GET'' ''/pets/meta/?x=1'')) = ''get'' \<and>
   (\<exists>op\<in>set (getOperations pets_router). op_path op = ''/pets/meta'' \<and> op_method op = ''get'') \<and>
   (\<exists>pre e post. getOperations pets_router = pre @ e # post \<and>
      op_path e = ''/pets/meta'' \<and> op_method e = ''get'' \<and>
      (\<forall>x\<in>set pre. \<not> (op_path x = ''/pets/meta'' \<and> op_method x = ''get'')) \<and>
      matchOperation simple_engine pets_router (plain_request ''GET'' ''/pets/meta/?x=1'') True =
        Inr (Some e)) \<and>
   matched_id (matchOperation simple_engine pets_router (plain_request ''GET'' ''/pets/meta/?x=1'') True) =
     Inr (Some (Some ''getPetsMeta'')) \<and>
   prefix (apiRoot shapes_router) (path (normalizeRequest (plain_request ''GET'' ''/pets/meta''))) \<and>
   normalizePath simple_engine shapes_router
     (path (normalizeRequest (plain_request ''GET'' ''/pets/meta''))) = Inr ''/pets/meta'' \<and>
   method (normalizeRequest (plain_request ''GET'' ''/pets/meta'')) = ''get'' \<and>
   \<not> (\<exists>op\<in>set (getOperations shapes_router). op_path op = ''/pets/meta'' \<and> op_method op = ''get'') \<and>
   list_all (\<lambda>op. simple_engine (placeholder_pattern (op_path op)) ''/pets/meta'' \<noteq> None)
     (getOperations shapes_router) \<and>
   (\<exists>op\<in>set (getOperations shapes_router).
      template_accepts simple_engine (op_path op) ''/pets/meta'' \<and> op_method op = ''get'') \<and>
   (\<exists>pre w post. getOperations shapes_router = pre @ w # post \<and>
      template_accepts simple_engine (op_path w) ''/pets/meta'' \<and> op_method w = ''get'' \<and>
      (\<forall>x\<in>set pre.
         template_accepts simple_engine (op_path x) ''/pets/meta'' \<and> op_method x = ''get'' \<longrightarrow>
         length (without_placeholders (op_path x)) < length (without_placeholders (op_path w))) \<and>
      (\<forall>x\<in>set post.
         template_accepts simple_engine (op_path x) ''/pets/meta'' \<and> op_method x = ''get'' \<longrightarrow>
         length (without_placeholders (op_path x)) \<le> length (without_placeholders (op_path w))) \<and>
      matchOperation simple_engine shapes_router (plain_request ''GET'' ''/pets/meta'') True =
        Inr (Some w)) \<and>
   matched_id (matchOperation simple_engine shapes_router (plain_request ''GET'' ''/pets/meta'') True) =
     Inr (Some (Some ''getPetById'')) \<and>
   map (\<lambda>op. (op_operationId op, op_method op,
               template_accepts simple_engine (op_path op) ''/pets/meta'',
               length (without_placeholders (op_path op))))
     (getOperations shapes_router) =
     [(Some ''getThing'', ''get'', True, 2), (Some ''getPetById'', ''get'', True, 6),
      (Some ''getKindMeta'', ''get'', True, 6), (Some ''createPetsMeta'', ''post'', True, 10)]"
proof -
  let ?a = "plain_request ''GET'' ''/pets/meta/?x=1''"
  let ?b = "plain_request ''GET'' ''/pets/meta''"
  have g1: "prefix (apiRoot pets_router) (path (normalizeRequest ?a))"
    by code_simp
  have n1: "normalizePath simple_engine pets_router (path (normalizeRequest ?a)) = Inr ''/pets/meta''"
    by code_simp
  have m1: "method (normalizeRequest ?a) = ''get''"
    by code_simp
  have x1: "\<exists>op\<in>set (getOperations pets_router). op_path op = ''/pets/meta'' \<and> op_method op = ''get''"
    by code_simp
  have r1: "matched_id (matchOperation simple_engine pets_router ?a True) =
     Inr (Some (Some ''getPetsMeta''))"
    by code_simp
  have g2: "prefix (apiRoot shapes_router) (path (normalizeRequest ?b))"
    by code_simp
  have n2: "normalizePath simple_engine shapes_router (path (normalizeRequest ?b)) = Inr ''/pets/meta''"
    by code_simp
  have m2: "method (normalizeRequest ?b) = ''get''"
    by code_simp
  have x2: "\<not> (\<exists>op\<in>set (getOperations shapes_router). op_path op = ''/pets/meta'' \<and> op_method op = ''get'')"
    by code_simp
  have c2: "list_all (\<lambda>op. simple_engine (placeholder_pattern (op_path op)) ''/pets/meta'' \<noteq> None)
     (getOperations shapes_router)"
    by code_simp
  have k2: "\<exists>op\<in>set (getOperations shapes_router).
      template_accepts simple_engine (op_path op) ''/pets/meta'' \<and> op_method op = ''get''"
    by code_simp
  have r2: "matched_id (matchOperation simple_engine shapes_router ?b True) =
     Inr (Some (Some ''getPetById''))"
    by code_simp
  have t2: "map (\<lambda>op. (op_operationId op, op_method op,
               template_accepts simple_engine (op_path op) ''/pets/meta'',
               length (without_placeholders (op_path op))))
     (getOperations shapes_router) =
     [(Some ''getThing'', ''get'', True, 2), (Some ''getPetById'', ''get'', True, 6),
      (Some ''getKindMeta'', ''get'', True, 6), (Some ''createPetsMeta'', ''post'', True, 10)]"
    by code_simp
  note A = matchOperation_lookup_order [OF g1 n1, of True, unfolded m1, THEN conjunct1, THEN mp, OF x1]
  note B = matchOperation_lookup_order [OF g2 n2, of True, unfolded m2, THEN conjunct2, THEN mp,
      OF conjI [OF x2 conjI [OF c2 [unfolded list_all_iff] k2]]]
  show ?thesis
    by (intro conjI) (fact g1, fact n1, fact m1, fact x1, fact A, fact r1, fact g2, fact n2, fact m2,
        fact x2, fact c2, fact k2, fact B, fact r2, fact t2)
qed

text \<open>
  Claim C1 as stated fails: a router with \<^verbatim>\<open>apiRoot = '/api'\<close> answers \<^verbatim>\<open>GET /pets\<close>
  with \<^verbatim>\<open>undefined\<close>, though \<^verbatim>\<open>get\<close> is declared at exactly the normalised path
  \<^verbatim>\<open>/pets\<close>.
\<close>

theorem matchOperation_lookup_order_counterexample:
  "matchOperation simple_engine api_router (plain_request ''GET'' ''/pets'') False = Inr None \<and>
   path (normalizeRequest (plain_request ''GET'' ''/pets'')) = ''/pets'' \<and>
   method (normalizeRequest (plain_request ''GET'' ''/pets'')) = ''get'' \<and>
   (\<exists>op\<in>set (getOperations api_router). op_path op = ''/pets'' \<and> op_method op = ''get'')"
  by code_simp


text \<open>
  Claim C4. In non-strict mode \<^verbatim>\<open>matchOperation\<close> is to return \<^verbatim>\<open>undefined\<close> and never
  throw. The code builds a regular expression from every template without escaping
  it, so when the request is not answered by an exact match and the engine rejects the
  pattern of a template (\<^verbatim>\<open>new RegExp\<close> throws), \<^verbatim>\<open>matchOperation\<close> throws that
  \<^verbatim>\<open>SyntaxError\<close> in non-strict mode too. The lemmas \<open>matchOperation_gate_closed_errors\<close>,
  \<open>matchOperation_errors_when_compiled\<close> and \<open>error_prefixes\<close> above show the outcomes
  the claim describes whenever every pattern is read.
\<close>

theorem matchOperation_nonstrict_throws:
  assumes "prefix (apiRoot r) (path (normalizeRequest req))"
    and "normalizePath eng r (path (normalizeRequest req)) = Inr np"
    and "\<not> (\<exists>op\<in>set (getOperations r). exact_for np (method (normalizeRequest req)) op)"
    and "\<not> compiles eng np (getOperations r)"
  shows "\<exists>p. matchOperation eng r req False = Inl (SyntaxError p)"
proof -
  from not_compiles_throws[OF assms(4)]
  obtain p where "filter_throwing (template_test eng np) (getOperations r) = Inl (SyntaxError p)"
    by (rule exE)
  moreover have "find (exact_for np (method (normalizeRequest req))) (getOperations r) = None"
    using assms(3) by (simp add: find_exact_None)
  ultimately have "matchOperation eng r req False = Inl (SyntaxError p)"
    by (simp add: matchOperation_phases[OF assms(1,2)])
  then show ?thesis by (rule exI)
qed


theorem matchOperation_nonstrict_throws_witness:
  "prefix (apiRoot lang_router) (path (normalizeRequest (plain_request ''GET'' ''/lang/c''))) \<and>
   normalizePath simple_engine lang_router
     (path (normalizeRequest (plain_request ''GET'' ''/lang/c''))) = Inr ''/lang/c'' \<and>
   \<not> (\<exists>op\<in>set (getOperations lang_router).
      exact_for ''/lang/c'' (method (normalizeRequest (plain_request ''GET'' ''/lang/c''))) op) \<and>
   \<not> compiles simple_engine ''/lang/c'' (getOperations lang_router) \<and>
   (\<exists>p. matchOperation simple_engine lang_router (plain_request ''GET'' ''/lang/c'') False =
      Inl (SyntaxError p))"
proof -
  let ?a = "plain_request ''GET'' ''/lang/c''"
  have g: "prefix (apiRoot lang_router) (path (normalizeRequest ?a))"
    by code_simp
  have n: "normalizePath simple_engine lang_router (path (normalizeRequest ?a)) = Inr ''/lang/c''"
    by code_simp
  have x: "\<not> (\<exists>op\<in>set (getOperations lang_router).
      exact_for ''/lang/c'' (method (normalizeRequest ?a)) op)"
    by code_simp
  have c: "\<not> compiles simple_engine ''/lang/c'' (getOperations lang_router)"
    by code_simp
  note T = matchOperation_nonstrict_throws [OF g n x c]
  show ?thesis
    by (intro conjI) (fact g, fact n, fact x, fact c, fact T)
qed



section \<open>Properties of the status matcher\<close>












section \<open>Properties of the security step\<close>

lemma map_of_run_handlers:
  "map_of (foldl (run_handler handlers ctx) res names) nm =
     (if nm \<in> set names then Some (handler_result handlers ctx nm) else map_of res nm)"
  by (induction names arbitrary: res) (auto simp: run_handler_def update_conv')


text \<open>
  Claim C2. After the handlers have run, \<^verbatim>\<open>authorized\<close> is true if and only if the
  effective security is empty or some requirement object of it has every one of its
  schemes' handlers return a truthy value (a scheme with no handler counts as
  \<^verbatim>\<open>undefined\<close>, which is not truthy). The value each handler returned is stored under
  the scheme's name.
\<close>

theorem runSecurity_authorized:
  "(authorized (runSecurity handlers ctx reqs) \<longleftrightarrow>
      reqs = [] \<or>
      (\<exists>req\<in>set reqs. \<forall>nm\<in>set (map fst req).
         truthy (case handlers nm of None \<Rightarrow> Undefined | Some h \<Rightarrow> h ctx))) \<and>
   (\<forall>req\<in>set reqs. \<forall>nm\<in>set (map fst req).
      map_of (results (runSecurity handlers ctx reqs)) nm =
        Some (case handlers nm of None \<Rightarrow> Undefined | Some h \<Rightarrow> h ctx))"
proof -
  have names: "\<And>req nm. req \<in> set reqs \<Longrightarrow> nm \<in> set (map fst req) \<Longrightarrow> nm \<in> set (securitySchemes reqs)"
    by (auto simp: securitySchemes_def)
  have sat: "\<And>req. req \<in> set reqs \<Longrightarrow>
      requirement_satisfied (foldl (run_handler handlers ctx) [] (securitySchemes reqs)) req \<longleftrightarrow>
      (\<forall>nm\<in>set (map fst req). truthy (handler_result handlers ctx nm))"
    using names by (simp add: requirement_satisfied_def list_all_iff map_of_run_handlers)
  have main: "authorized (runSecurity handlers ctx reqs) \<longleftrightarrow>
      reqs = [] \<or>
      (\<exists>req\<in>set reqs. \<forall>nm\<in>set (map fst req). truthy (handler_result handlers ctx nm))"
    using sat by (simp add: runSecurity_def Let_def list_ex_iff)
  have res: "\<forall>req\<in>set reqs. \<forall>nm\<in>set (map fst req).
      map_of (results (runSecurity handlers ctx reqs)) nm = Some (handler_result handlers ctx nm)"
    using names by (simp add: runSecurity_def Let_def map_of_run_handlers)
  from main res show ?thesis
    unfolding handler_result_def by (intro conjI)
qed

theorem runSecurity_authorized_witness:
  "authorized (runSecurity accepting () basic_security) \<and>
   \<not> authorized (runSecurity rejecting () basic_security) \<and>
   \<not> authorized (runSecurity refusing () basic_security) \<and>
   \<not> authorized (runSecurity (Map.empty :: string \<rightharpoonup> (unit \<Rightarrow> unit jsvalue)) () basic_security) \<and>
   authorized (runSecurity accepting () []) \<and>
   authorized (runSecurity basic_only () two_alternatives) \<and>
   \<not> authorized (runSecurity basic_only () both_required) \<and>
   map_of (results (runSecurity accepting () basic_security)) ''basicAuth'' = Some (Num 1) \<and>
   map_of (results (runSecurity dummy_handler () basic_security)) ''basicAuth'' =
     Some (Str ''dummyResponse'') \<and>
   map_of (results (runSecurity Map.empty () basic_security)) ''basicAuth'' =
     Some (Undefined :: unit jsvalue)"
proof -
  let ?ok = "\<lambda>(hs :: string \<rightharpoonup> (unit \<Rightarrow> unit jsvalue)) reqs.
      list_ex (\<lambda>req. list_all (\<lambda>nm. truthy (case hs nm of None \<Rightarrow> Undefined | Some h \<Rightarrow> h ())) (map fst req)) reqs"
  have a: "?ok accepting basic_security"
    by (simp add: accepting_def basic_security_def)
  have b: "\<not> ?ok rejecting basic_security"
    by (simp add: rejecting_def basic_security_def)
  have c: "\<not> ?ok refusing basic_security"
    by (simp add: refusing_def basic_security_def)
  have d: "\<not> ?ok Map.empty basic_security" by (simp add: basic_security_def)
  have e: "?ok basic_only two_alternatives"
    by (simp add: basic_only_def two_alternatives_def)
  have f: "\<not> ?ok basic_only both_required"
    by (simp add: basic_only_def both_required_def)
  have g: "basic_security \<noteq> [] \<and> both_required \<noteq> [] \<and> [(''basicAuth'', [])] \<in> set basic_security \<and>
           ''basicAuth'' \<in> set (map fst [(''basicAuth'', [] :: string list)])"
    by (simp add: basic_security_def both_required_def)
  have h: "accepting ''basicAuth'' = Some (\<lambda>c. Num 1) \<and>
           dummy_handler ''basicAuth'' = Some (\<lambda>c. Str ''dummyResponse'')"
    by (simp add: accepting_def dummy_handler_def)
  note T1 = runSecurity_authorized [of accepting "()" basic_security]
  note T2 = runSecurity_authorized [of rejecting "()" basic_security]
  note T3 = runSecurity_authorized [of refusing "()" basic_security]
  note T4 = runSecurity_authorized [of "Map.empty :: string \<rightharpoonup> (unit \<Rightarrow> unit jsvalue)" "()" basic_security]
  note T5 = runSecurity_authorized [of accepting "()" "[]"]
  note T6 = runSecurity_authorized [of basic_only "()" two_alternatives]
  note T7 = runSecurity_authorized [of basic_only "()" both_required]
  note T8 = runSecurity_authorized [of dummy_handler "()" basic_security]
  have r1: "authorized (runSecurity accepting () basic_security)"
    using T1 a by (simp add: list_ex_iff list_all_iff)
  have r2: "\<not> authorized (runSecurity rejecting () basic_security)"
    using T2 b g by (simp add: list_ex_iff list_all_iff)
  have r3: "\<not> authorized (runSecurity refusing () basic_security)"
    using T3 c g by (simp add: list_ex_iff list_all_iff)
  have r4: "\<not> authorized (runSecurity (Map.empty :: string \<rightharpoonup> (unit \<Rightarrow> unit jsvalue)) () basic_security)"
    using T4 d g by (simp add: list_ex_iff list_all_iff)
  have r5: "authorized (runSecurity accepting () [])"
    using T5 by simp
  have r6: "authorized (runSecurity basic_only () two_alternatives)"
    using T6 e by (simp add: list_ex_iff list_all_iff)
  have r7: "\<not> authorized (runSecurity basic_only () both_required)"
    using T7 f g by (simp add: list_ex_iff list_all_iff)
  have r8: "map_of (results (runSecurity accepting () basic_security)) ''basicAuth'' = Some (Num 1)"
    using T1 [THEN conjunct2, rule_format, of "[(''basicAuth'', [])]" "''basicAuth''"] g h by simp
  have r9: "map_of (results (runSecurity dummy_handler () basic_security)) ''basicAuth'' =
     Some (Str ''dummyResponse'')"
    using T8 [THEN conjunct2, rule_format, of "[(''basicAuth'', [])]" "''basicAuth''"] g h by simp
  have r10: "map_of (results (runSecurity Map.empty () basic_security)) ''basicAuth'' =
     Some (Undefined :: unit jsvalue)"
    using T4 [THEN conjunct2, rule_format, of "[(''basicAuth'', [])]" "''basicAuth''"] g by simp
  from r1 r2 r3 r4 r5 r6 r7 r8 r9 r10 show ?thesis by (intro conjI)
qed

section \<open>Properties of parseRequest\<close>

lemma coerce_other:
  "coerce_query_param rt opn qs q k = Inr q1 \<Longrightarrow> k' \<noteq> k \<Longrightarrow> map_of q1 k' = map_of q k'"
  by (auto simp: coerce_query_param_def update_conv' split: if_splits option.splits sum.splits)

lemma fold_coerce_other:
  "fold_throwing (coerce_query_param rt opn qs) q ks = Inr q' \<Longrightarrow> k \<notin> set ks \<Longrightarrow>
   map_of q' k = map_of q k"
proof (induction ks arbitrary: q)
  case Nil
  then show ?case by simp
next
  case (Cons x xs)
  from Cons.prems(1) obtain qa where a: "coerce_query_param rt opn qs q x = Inr qa"
      "fold_throwing (coerce_query_param rt opn qs) qa xs = Inr q'"
    by (auto split: sum.splits)
  have "map_of q' k = map_of qa k" using Cons.IH[OF a(2)] Cons.prems(2) by simp
  also have "\<dots> = map_of q k" using coerce_other[OF a(1), of k] Cons.prems(2) by simp
  finally show ?case .
qed

lemma fold_coerce_key:
  "fold_throwing (coerce_query_param rt opn qs) q ks = Inr q' \<Longrightarrow> k \<in> set ks \<Longrightarrow> distinct ks \<Longrightarrow>
   \<exists>q1 q2. map_of q1 k = map_of q k \<and> coerce_query_param rt opn qs q1 k = Inr q2 \<and>
     map_of q' k = map_of q2 k"
proof (induction ks arbitrary: q)
  case Nil
  then show ?case by simp
next
  case (Cons x xs)
  from Cons.prems(1) obtain qa where a: "coerce_query_param rt opn qs q x = Inr qa"
      "fold_throwing (coerce_query_param rt opn qs) qa xs = Inr q'"
    by (auto split: sum.splits)
  show ?case
  proof (cases "x = k")
    case True
    then have "k \<notin> set xs" using Cons.prems(3) by simp
    from fold_coerce_other[OF a(2) this] a(1) True show ?thesis by blast
  next
    case False
    then have "k \<in> set xs" "distinct xs" using Cons.prems(2,3) by simp_all
    from Cons.IH[OF a(2) this]
    obtain q1 q2 where h: "map_of q1 k = map_of qa k"
        "coerce_query_param rt opn qs q1 k = Inr q2" "map_of q' k = map_of q2 k"
      by (elim exE conjE)
    have "map_of qa k = map_of q k" using coerce_other[OF a(1), of k] False by simp
    with h show ?thesis by (intro exI[of _ q1] exI[of _ q2]) simp
  qed
qed

lemma parseRequest_query:
  assumes "parseRequest rt r req (Some opn) = Inr pr" and "initial_query rt req = Some q0"
  shows "\<exists>q'. pr_query pr = Some q' \<and>
     fold_throwing (coerce_query_param rt opn (split_1 CHR ''?'' (path req))) q0 (map fst q0) = Inr q'"
  using assms
  by (auto simp: parseRequest_def Let_def request.extend_def parsed_request.fields_def
      split: sum.splits option.splits)

text \<open>
  Claim C6, as amended. Let the query before the styles are applied have distinct keys
  and a truthy entry for \<open>k\<close>, and let the operation's first query parameter named \<open>k\<close>
  have \<^verbatim>\<open>explode === false\<close> and no JSON content. When the request path carries a
  non-empty query string, \<^verbatim>\<open>parseRequest\<close> replaces the entry by the entry of \<open>k\<close> in the
  comma-parsed query string, in which the delimiters of the parameter's style were
  turned into commas first (space and \<^verbatim>\<open>%20\<close> for \<^verbatim>\<open>spaceDelimited\<close>, \<^verbatim>\<open>|\<close> and \<^verbatim>\<open>%7C\<close> for
  \<^verbatim>\<open>pipeDelimited\<close>, nothing for \<^verbatim>\<open>form\<close>). When the path carries no query string (the
  query came as an object), the entry stays as it was.
\<close>

theorem parseRequest_explode_false:
  assumes "parseRequest rt r req (Some opn) = Inr pr"
    and "initial_query rt req = Some q0" and "distinct (map fst q0)"
    and "map_of q0 k = Some v" and "qvalue_truthy v"
    and "find_parameter opn k ''query'' = Some p"
    and "\<not> content_json p" and "explode p = Some False"
  shows "(\<forall>qstr. split_1 CHR ''?'' (path req) = Some qstr \<and> qstr \<noteq> [] \<longrightarrow>
            (\<exists>q'. pr_query pr = Some q' \<and>
               map_of q' k =
                 Some (qlookup (qs_parse rt True (Some (commaQueryString (style p) qstr))) k))) \<and>
         (split_1 CHR ''?'' (path req) = None \<or> split_1 CHR ''?'' (path req) = Some [] \<longrightarrow>
            (\<exists>q'. pr_query pr = Some q' \<and> map_of q' k = Some v)) \<and>
         (\<forall>s. commaQueryString (Some ''spaceDelimited'') s =
                replace_all ''%20'' '','' (replace_all '' '' '','' s) \<and>
              commaQueryString (Some ''pipeDelimited'') s =
                replace_all ''%7C'' '','' (replace_all ''|'' '','' s) \<and>
              commaQueryString (Some ''form'') s = s)"
proof -
  let ?qs = "split_1 CHR ''?'' (path req)"
  from parseRequest_query[OF assms(1,2)]
  obtain q' where q': "pr_query pr = Some q'"
      "fold_throwing (coerce_query_param rt opn ?qs) q0 (map fst q0) = Inr q'"
    by (elim exE conjE)
  have kin: "k \<in> set (map fst q0)" using assms(4) by (metis map_of_eq_None_iff option.distinct(1) set_map)
  from fold_coerce_key[OF q'(2) kin assms(3)]
  obtain q1 q2 where h: "map_of q1 k = map_of q0 k"
      "coerce_query_param rt opn ?qs q1 k = Inr q2" "map_of q' k = map_of q2 k"
    by (elim exE conjE)
  have lk: "qlookup q1 k = v" using h(1) assms(4) by (simp add: qlookup_def)
  have A: "\<forall>qstr. ?qs = Some qstr \<and> qstr \<noteq> [] \<longrightarrow>
            (\<exists>q'. pr_query pr = Some q' \<and>
               map_of q' k =
                 Some (qlookup (qs_parse rt True (Some (commaQueryString (style p) qstr))) k))"
  proof (intro allI impI)
    fix qstr assume s: "?qs = Some qstr \<and> qstr \<noteq> []"
    then have "q2 = AList.update k
        (qlookup (qs_parse rt True (Some (commaQueryString (style p) qstr))) k) q1"
      using h(2) lk assms(5-8) by (simp add: coerce_query_param_def)
    then have "map_of q' k =
        Some (qlookup (qs_parse rt True (Some (commaQueryString (style p) qstr))) k)"
      using h(3) by (simp add: update_conv')
    with q'(1) show "\<exists>q'. pr_query pr = Some q' \<and>
               map_of q' k =
                 Some (qlookup (qs_parse rt True (Some (commaQueryString (style p) qstr))) k)"
      by simp
  qed
  have B: "?qs = None \<or> ?qs = Some [] \<longrightarrow> (\<exists>q'. pr_query pr = Some q' \<and> map_of q' k = Some v)"
  proof
    assume "?qs = None \<or> ?qs = Some []"
    then have "q2 = q1"
      using h(2) lk assms(5-8) by (auto simp: coerce_query_param_def)
    then have "map_of q' k = Some v" using h(1,3) assms(4) by simp
    with q'(1) show "\<exists>q'. pr_query pr = Some q' \<and> map_of q' k = Some v" by simp
  qed
  have C: "\<forall>s. commaQueryString (Some ''spaceDelimited'') s =
                replace_all ''%20'' '','' (replace_all '' '' '','' s) \<and>
              commaQueryString (Some ''pipeDelimited'') s =
                replace_all ''%7C'' '','' (replace_all ''|'' '','' s) \<and>
              commaQueryString (Some ''form'') s = s"
    by (simp add: commaQueryString_def)
  from A B C show ?thesis by (intro conjI)
qed

theorem parseRequest_explode_false_witness:
  "initial_query simple_runtime (plain_request ''GET'' ''/pets?a=1 2 3'') = Some [(''a'', QStr ''1 2 3'')] \<and>
   distinct (map fst [(''a'', QStr ''1 2 3'')]) \<and>
   find_parameter (list_operation ''spaceDelimited'') ''a'' ''query'' =
     Some (array_param ''a'' ''spaceDelimited'') \<and>
   split_1 CHR ''?'' (path (plain_request ''GET'' ''/pets?a=1 2 3'')) = Some ''a=1 2 3'' \<and>
   (\<exists>q'. pr_query (projr (parseRequest simple_runtime pets_router
              (plain_request ''GET'' ''/pets?a=1 2 3'') (Some (list_operation ''spaceDelimited'')))) = Some q' \<and>
      map_of q' ''a'' =
        Some (qlookup (qs_parse simple_runtime True
           (Some (commaQueryString (style (array_param ''a'' ''spaceDelimited'')) ''a=1 2 3''))) ''a'')) \<and>
   map_sum id pr_query (parseRequest simple_runtime pets_router
       (plain_request ''GET'' ''/pets?a=1 2 3'') (Some (list_operation ''spaceDelimited''))) =
     Inr (Some [(''a'', QArr [QStr ''1'', QStr ''2'', QStr ''3''])]) \<and>
   map_sum id pr_query (parseRequest simple_runtime pets_router
       (plain_request ''GET'' ''/pets?a=1%202%203'') (Some (list_operation ''spaceDelimited''))) =
     Inr (Some [(''a'', QArr [QStr ''1'', QStr ''2'', QStr ''3''])]) \<and>
   map_sum id pr_query (parseRequest simple_runtime pets_router
       (plain_request ''GET'' ''/pets?a=1,2,3'') (Some (list_operation ''form''))) =
     Inr (Some [(''a'', QArr [QStr ''1'', QStr ''2'', QStr ''3''])]) \<and>
   map_sum id pr_query (parseRequest simple_runtime pets_router
       (plain_request ''GET'' ''/pets?a=1|2%7C3'') (Some (list_operation ''pipeDelimited''))) =
     Inr (Some [(''a'', QArr [QStr ''1'', QStr ''2'', QStr ''3''])])"
proof -
  let ?req = "plain_request ''GET'' ''/pets?a=1 2 3''"
  let ?op = "list_operation ''spaceDelimited''"
  let ?res = "parseRequest simple_runtime pets_router ?req (Some ?op)"
  have "\<not> isl ?res" by code_simp
  then have r: "?res = Inr (projr ?res)" by simp
  have i: "initial_query simple_runtime ?req = Some [(''a'', QStr ''1 2 3'')]" by code_simp
  have d: "distinct (map fst [(''a'', QStr ''1 2 3'')])" by simp
  have m: "map_of [(''a'', QStr ''1 2 3'')] ''a'' = Some (QStr ''1 2 3'')" by simp
  have t: "qvalue_truthy (QStr ''1 2 3'')" by simp
  have f: "find_parameter ?op ''a'' ''query'' = Some (array_param ''a'' ''spaceDelimited'')"
    by code_simp
  have c: "\<not> content_json (array_param ''a'' ''spaceDelimited'')" by (simp add: array_param_def)
  have e: "explode (array_param ''a'' ''spaceDelimited'') = Some False" by (simp add: array_param_def)
  have s: "split_1 CHR ''?'' (path ?req) = Some ''a=1 2 3''" by code_simp
  have n: "''a=1 2 3'' \<noteq> []" by simp
  note T = parseRequest_explode_false [OF r i d m t f c e, THEN conjunct1, rule_format,
      OF conjI [OF s n]]
  have x1: "map_sum id pr_query ?res = Inr (Some [(''a'', QArr [QStr ''1'', QStr ''2'', QStr ''3''])])"
    by code_simp
  have x2: "map_sum id pr_query (parseRequest simple_runtime pets_router
       (plain_request ''GET'' ''/pets?a=1%202%203'') (Some (list_operation ''spaceDelimited''))) =
     Inr (Some [(''a'', QArr [QStr ''1'', QStr ''2'', QStr ''3''])])"
    by code_simp
  have x3: "map_sum id pr_query (parseRequest simple_runtime pets_router
       (plain_request ''GET'' ''/pets?a=1,2,3'') (Some (list_operation ''form''))) =
     Inr (Some [(''a'', QArr [QStr ''1'', QStr ''2'', QStr ''3''])])"
    by code_simp
  have x4: "map_sum id pr_query (parseRequest simple_runtime pets_router
       (plain_request ''GET'' ''/pets?a=1|2%7C3'') (Some (list_operation ''pipeDelimited''))) =
     Inr (Some [(''a'', QArr [QStr ''1'', QStr ''2'', QStr ''3''])])"
    by code_simp
  show ?thesis
    by (intro conjI) (fact i, fact d, fact f, fact s, fact T, fact x1, fact x2, fact x3, fact x4)
qed

text \<open>
  Claim C6 as stated fails: the request carries its query as an object and its path has
  no query string; the parameter \<^verbatim>\<open>a\<close> has \<^verbatim>\<open>explode === false\<close>, and the entry stays the
  string \<^verbatim>\<open>"1,2,3"\<close>.
\<close>

theorem parseRequest_explode_false_counterexample:
  "find_parameter (list_operation ''form'') ''a'' ''query'' = Some (array_param ''a'' ''form'') \<and>
   explode (array_param ''a'' ''form'') = Some False \<and>
   query object_query_request = QueryObject [(''a'', QStr ''1,2,3'')] \<and>
   map_sum id pr_query
     (parseRequest simple_runtime pets_router object_query_request (Some (list_operation ''form''))) =
     Inr (Some [(''a'', QStr ''1,2,3'')])"
  by code_simp

section \<open>Properties of validateRequest\<close>

lemma matchOperation_root_throws:
  "prefix (apiRoot r) (path (normalizeRequest req)) \<Longrightarrow>
   normalizePath eng r (path (normalizeRequest req)) = Inl e \<Longrightarrow>
   matchOperation eng r req strict = Inl e"
  by (simp add: matchOperation_def Let_def)

lemma normalizeRequest_body:
  "path (normalizeRequest (req\<lparr>body := b'\<rparr>)) = path (normalizeRequest req) \<and>
   method (normalizeRequest (req\<lparr>body := b'\<rparr>)) = method (normalizeRequest req)"
  by (simp add: normalizeRequest_def)

lemma matchOperation_body:
  "matchOperation eng r (req\<lparr>body := b'\<rparr>) strict = matchOperation eng r req strict"
proof (cases "prefix (apiRoot r) (path (normalizeRequest req))")
  case False
  then show ?thesis
    using matchOperation_gate_closed[of r req eng strict]
      matchOperation_gate_closed[of r "req\<lparr>body := b'\<rparr>" eng strict]
    by (simp add: normalizeRequest_body)
next
  case True
  show ?thesis
  proof (cases "normalizePath eng r (path (normalizeRequest req))")
    case (Inl e)
    then show ?thesis
      using True matchOperation_root_throws[of r req eng e strict]
        matchOperation_root_throws[of r "req\<lparr>body := b'\<rparr>" eng e strict]
      by (simp add: normalizeRequest_body)
  next
    case (Inr np)
    have m: "method (normalizeRequest (req\<lparr>body := b'\<rparr>)) = method (normalizeRequest req)"
      by (simp add: normalizeRequest_body)
    have g: "prefix (apiRoot r) (path (normalizeRequest (req\<lparr>body := b'\<rparr>)))"
      using True by (simp add: normalizeRequest_body)
    have n: "normalizePath eng r (path (normalizeRequest (req\<lparr>body := b'\<rparr>))) = Inr np"
      using Inr by (simp add: normalizeRequest_body)
    show ?thesis
      unfolding matchOperation_phases[OF True Inr] matchOperation_phases[OF g n] m
      by (rule refl)
  qed
qed

lemma resolve_operation_body:
  "resolve_operation rt v (req\<lparr>body := b'\<rparr>) arg = resolve_operation rt v req arg"
  by (simp add: resolve_operation_def matchOperation_body split: operation_argument.splits)

lemma body_check_malformed:
  assumes "body req = Some b" and "\<not> is_object b"
    and "op_requestBody_content opn = Some [''application/json'']"
    and "JSON_parse rt (body_text b) = Inl msg"
  shows "body_check rt req opn = [parse_error msg]"
  using assms by (simp add: body_check_def or_else_def)

lemma parseRequest_throws_iff:
  "parseRequest rt r req (Some opn) = Inl e \<longleftrightarrow>
   (normalizePath (regexp rt) r (path (normalizeRequest req)) = Inl e \<or>
    (\<exists>np q0. normalizePath (regexp rt) r (path (normalizeRequest req)) = Inr np \<and>
       initial_query rt req = Some q0 \<and>
       fold_throwing (coerce_query_param rt opn (split_1 CHR ''?'' (path req))) q0 (map fst q0) = Inl e))"
  unfolding parseRequest_def Let_def
  by (auto split: sum.splits option.splits)

lemma parseRequest_no_operation: "parseRequest rt r req None \<noteq> Inl e"
  unfolding parseRequest_def Let_def by simp

lemma parseRequest_body_throws:
  "parseRequest rt r (req\<lparr>body := b'\<rparr>) opn = Inl e \<longleftrightarrow> parseRequest rt r req opn = Inl e"
proof (cases opn)
  case None
  then show ?thesis by (simp add: parseRequest_no_operation)
next
  case (Some a)
  have "initial_query rt (req\<lparr>body := b'\<rparr>) = initial_query rt req"
    by (cases "query req") (simp_all add: initial_query_def)
  then show ?thesis
    unfolding Some parseRequest_throws_iff by (simp add: normalizeRequest_body)
qed


lemma validateRequest_throws_iff:
  "validateRequest rt v req arg = Inl e \<longleftrightarrow>
   (resolve_operation rt v req arg = Inl e \<or>
    (resolve_operation rt v req arg = Inr None \<and> e = Error ''Unknown operation'') \<or>
    (\<exists>opn. resolve_operation rt v req arg = Inr (Some opn) \<and>
       (((op_operationId opn = None \<or> op_operationId opn = Some []) \<and> e = Error ''Unknown operation'') \<or>
        (\<exists>i. op_operationId opn = Some i \<and> i \<noteq> [] \<and>
           (parseRequest rt (v_router v) req (Some opn) = Inl e \<or>
            ((\<exists>pr. parseRequest rt (v_router v) req (Some opn) = Inr pr) \<and>
             requestValidators v i = None \<and> e = TypeError ''validators is not iterable''))))))"
  unfolding validateRequest_def Let_def
  by (auto split: sum.splits option.splits)

lemma validateRequest_body_throws:
  "validateRequest rt v (req\<lparr>body := b'\<rparr>) arg = Inl e \<longleftrightarrow> validateRequest rt v req arg = Inl e"
proof -
  have "\<And>opn. (\<exists>pr. parseRequest rt (v_router v) (req\<lparr>body := b'\<rparr>) (Some opn) = Inr pr) \<longleftrightarrow>
       (\<exists>pr. parseRequest rt (v_router v) req (Some opn) = Inr pr)"
  proof -
    fix opn
    have "(\<exists>x. parseRequest rt (v_router v) (req\<lparr>body := b'\<rparr>) (Some opn) = Inl x) \<longleftrightarrow>
          (\<exists>x. parseRequest rt (v_router v) req (Some opn) = Inl x)"
      by (simp add: parseRequest_body_throws)
    then show "(\<exists>pr. parseRequest rt (v_router v) (req\<lparr>body := b'\<rparr>) (Some opn) = Inr pr) \<longleftrightarrow>
       (\<exists>pr. parseRequest rt (v_router v) req (Some opn) = Inr pr)"
      by (metis sum.exhaust sum.distinct(1))
  qed
  then show ?thesis
    unfolding validateRequest_throws_iff resolve_operation_body parseRequest_body_throws
    by simp
qed

lemma validateRequest_returns:
  assumes "resolve_operation rt v req arg = Inr (Some opn)"
    and "validateRequest rt v req arg = Inr res"
  shows "\<exists>rest. errors res = body_check rt req opn @ rest \<and> valid res = (errors res = [])"
  using assms(2) unfolding validateRequest_def assms(1) Let_def
  by (auto split: sum.splits option.splits if_splits)


text \<open>
  Claim C5. Let the operation that \<^verbatim>\<open>validateRequest\<close> works on declare
  \<^verbatim>\<open>application/json\<close> as its only request body media type, and let the body of the
  request be present, not an object, and not JSON (\<^verbatim>\<open>JSON.parse\<close> of its text throws with
  the message \<open>msg\<close>). Then every result that \<^verbatim>\<open>validateRequest\<close> returns has the
  synthetic error (keyword \<^verbatim>\<open>parse\<close>, schemaPath \<^verbatim>\<open>#/requestBody\<close>) as the first of its
  errors and \<^verbatim>\<open>valid = false\<close>; a result is returned whenever the operation has an
  operationId with compiled validators and the request parses; and the body is never
  the cause of an exception: \<^verbatim>\<open>validateRequest\<close> throws on the request exactly when it
  throws, the same exception, on the request with any other body.
\<close>

theorem validateRequest_malformed_body:
  assumes "resolve_operation rt v req arg = Inr (Some opn)"
    and "body req = Some b" and "\<not> is_object b"
    and "op_requestBody_content opn = Some [''application/json'']"
    and "JSON_parse rt (body_text b) = Inl msg"
  shows "(\<forall>res. validateRequest rt v req arg = Inr res \<longrightarrow>
            (\<exists>e rest. errors res = e # rest \<and> keyword e = ''parse'' \<and>
               schemaPath e = ''#/requestBody'' \<and> dataPath e = [] \<and> message e = msg) \<and>
            \<not> valid res) \<and>
         (\<forall>i vs pr. op_operationId opn = Some i \<and> i \<noteq> [] \<and> requestValidators v i = Some vs \<and>
            parseRequest rt (v_router v) req (Some opn) = Inr pr \<longrightarrow>
            (\<exists>res. validateRequest rt v req arg = Inr res)) \<and>
         (\<forall>b' e. validateRequest rt v (req\<lparr>body := b'\<rparr>) arg = Inl e \<longleftrightarrow>
            validateRequest rt v req arg = Inl e)"
proof -
  have bc: "body_check rt req opn = [parse_error msg]"
    by (rule body_check_malformed[OF assms(2-5)])
  have A: "\<forall>res. validateRequest rt v req arg = Inr res \<longrightarrow>
            (\<exists>e rest. errors res = e # rest \<and> keyword e = ''parse'' \<and>
               schemaPath e = ''#/requestBody'' \<and> dataPath e = [] \<and> message e = msg) \<and>
            \<not> valid res"
  proof (intro allI impI)
    fix res assume r: "validateRequest rt v req arg = Inr res"
    from validateRequest_returns[OF assms(1) r] bc
    obtain rest where h: "errors res = parse_error msg # rest" "valid res = (errors res = [])"
      by auto
    have "keyword (parse_error msg) = ''parse'' \<and> schemaPath (parse_error msg) = ''#/requestBody'' \<and>
          dataPath (parse_error msg) = [] \<and> message (parse_error msg) = msg"
      by (simp add: parse_error_def)
    with h(1) have "\<exists>e rest. errors res = e # rest \<and> keyword e = ''parse'' \<and>
               schemaPath e = ''#/requestBody'' \<and> dataPath e = [] \<and> message e = msg"
      by (intro exI[of _ "parse_error msg"] exI[of _ rest]) simp
    moreover have "\<not> valid res" using h by simp
    ultimately show "(\<exists>e rest. errors res = e # rest \<and> keyword e = ''parse'' \<and>
               schemaPath e = ''#/requestBody'' \<and> dataPath e = [] \<and> message e = msg) \<and>
            \<not> valid res"
      by (rule conjI)
  qed
  have B: "\<forall>i vs pr. op_operationId opn = Some i \<and> i \<noteq> [] \<and> requestValidators v i = Some vs \<and>
            parseRequest rt (v_router v) req (Some opn) = Inr pr \<longrightarrow>
            (\<exists>res. validateRequest rt v req arg = Inr res)"
    unfolding validateRequest_def assms(1) by (simp add: Let_def)
  have C: "\<forall>b' e. validateRequest rt v (req\<lparr>body := b'\<rparr>) arg = Inl e \<longleftrightarrow>
            validateRequest rt v req arg = Inl e"
    by (simp add: validateRequest_body_throws)
  from A B C show ?thesis by (intro conjI)
qed

theorem validateRequest_malformed_body_witness:
  "resolve_operation simple_runtime accepting_validator malformed_request
     (OperationObject create_operation) = Inr (Some create_operation) \<and>
   body malformed_request = Some (JStr ''{name: Garfield'') \<and>
   \<not> is_object (JStr ''{name: Garfield'') \<and>
   op_requestBody_content create_operation = Some [''application/json''] \<and>
   JSON_parse simple_runtime (body_text (JStr ''{name: Garfield'')) = Inl ''Unexpected token'' \<and>
   validateRequest simple_runtime accepting_validator malformed_request
     (OperationObject create_operation) =
     Inr \<lparr>valid = False,
          errors = [\<lparr>keyword = ''parse'', dataPath = [], schemaPath = ''#/requestBody'',
                     message = ''Unexpected token''\<rparr>]\<rparr> \<and>
   (\<exists>e rest.
      errors \<lparr>valid = False,
              errors = [\<lparr>keyword = ''parse'', dataPath = [], schemaPath = ''#/requestBody'',
                         message = ''Unexpected token''\<rparr>]\<rparr> = e # rest \<and>
      keyword e = ''parse'' \<and> schemaPath e = ''#/requestBody'' \<and> dataPath e = [] \<and>
      message e = ''Unexpected token'') \<and>
   \<not> valid \<lparr>valid = False,
              errors = [\<lparr>keyword = ''parse'', dataPath = [], schemaPath = ''#/requestBody'',
                         message = ''Unexpected token''\<rparr>]\<rparr>"
proof -
  let ?res = "\<lparr>valid = False,
          errors = [\<lparr>keyword = ''parse'', dataPath = [], schemaPath = ''#/requestBody'',
                     message = ''Unexpected token''\<rparr>]\<rparr>"
  have a: "resolve_operation simple_runtime accepting_validator malformed_request
     (OperationObject create_operation) = Inr (Some create_operation)"
    by (simp add: resolve_operation_def)
  have b: "body malformed_request = Some (JStr ''{name: Garfield'')"
    by (simp add: malformed_request_def)
  have c: "\<not> is_object (JStr ''{name: Garfield'')" by simp
  have d: "op_requestBody_content create_operation = Some [''application/json'']"
    by (simp add: create_operation_def)
  have e: "JSON_parse simple_runtime (body_text (JStr ''{name: Garfield'')) = Inl ''Unexpected token''"
    by code_simp
  have f: "validateRequest simple_runtime accepting_validator malformed_request
     (OperationObject create_operation) = Inr ?res"
    by code_simp
  note T = validateRequest_malformed_body [OF a b c d e, THEN conjunct1, rule_format, OF f]
  show ?thesis
    by (intro conjI) (fact a, fact b, fact c, fact d, fact e, fact f,
        fact T [THEN conjunct1], fact T [THEN conjunct2])
qed

section \<open>Properties of the cycle breaker\<close>

subsection \<open>The loop over the parts\<close>




subsection \<open>The parts of an object and of its copy\<close>











subsection \<open>The recursion\<close>







subsection \<open>Paths that name one object only\<close>













end
